theory Spec2Isabelle
  imports Main "HOL-Library.Word"
begin

unbundle bit_operations_syntax

chapter \<open>exif-exists: the PNG text-chunk reader and writer\<close>

text \<open>
  The repository holds two snapshots of the same component. \<open>src/App.jsx\<close> is the
  older one; the file \<open>package-lock.json\<close> is, despite its name, the source of the newer
  one. Both share \<open>crcTable\<close>, \<open>crc32\<close>, \<open>writeString\<close>, the JPG helpers and the
  handlers' control flow; they differ in \<open>extractPngMetadata\<close> and \<open>injectPngMetadata\<close>.
  The development embeds the binary helpers, \<open>extractPngMetadata\<close>, \<open>injectPngMetadata\<close>,
  \<open>handleExtract\<close> and \<open>handleInject\<close> of \<open>src/App.jsx\<close>, and \<open>createPngTextChunk\<close>,
  \<open>extractPngMetadata\<close> and \<open>injectPngMetadata\<close> of the second snapshot (the latter two
  under the names \<open>extractPngMetadata2\<close> and \<open>injectPngMetadata2\<close>), and proves
  properties of them.

  Conventions of the embedding:
  \<^item> a byte of a \<open>Uint8Array\<close> is an \<open>8 word\<close>, the contents of a buffer a list of bytes;
  \<^item> a JavaScript string is the list of its UTF-16 code units (\<open>16 word\<close>);
  \<^item> offsets and lengths are JavaScript Numbers holding non-negative integers far below
    \<open>2^53\<close>; they are modelled as \<open>nat\<close>;
  \<^item> the operands of the bitwise operators \<open>^\<close>, \<open>&\<close>, \<open>>>>\<close> are 32-bit patterns
    (\<open>32 word\<close>);
  \<^item> a thrown exception is the left injection of a sum type.
\<close>

section \<open>Bytes, strings and errors\<close>

type_synonym byte = "8 word"
type_synonym bytes = "byte list"
type_synonym js_string = "16 word list"

text \<open>The bytes and the code units of an ASCII literal of the source.\<close>

definition ascii :: "string \<Rightarrow> bytes" where
  "ascii s = map of_char s"

definition js_lit :: "string \<Rightarrow> js_string" where
  "js_lit s = map of_char s"

text \<open>
  The exceptions the modelled code can raise: the \<open>Error\<close> thrown by the signature check of
  \<open>extractPngMetadata\<close> (its message says that the file is not a valid PNG file), the
  \<open>RangeError\<close> of an out-of-bounds \<open>DataView\<close> or typed-array access, the \<open>Error\<close>
  thrown by \<open>handleExtract\<close> while the JPG library is not loaded yet, the \<open>TypeError\<close> of a
  property access on the missing library object, and an exception raised by the JPG
  library itself.
\<close>

datatype error = NotValidPng | RangeError | JpgLibraryLoading | TypeError | PiexifError

section \<open>CRC-32\<close>

text \<open>
  \<^verbatim>\<open>
  const crcTable = [];
  for (let n = 0; n < 256; n++) {
    let c = n;
    for (let k = 0; k < 8; k++) {
      if (c & 1) c = 0xedb88320 ^ (c >>> 1);
      else c = c >>> 1;
    }
    crcTable[n] = c;
  }
  \<close>
  \<open>crc_bit_step\<close> is the body of the inner loop.
\<close>

definition crc_bit_step :: "32 word \<Rightarrow> 32 word" where
  "crc_bit_step c = (if c AND 1 \<noteq> 0 then 0xedb88320 XOR drop_bit 1 c else drop_bit 1 c)"

definition crcTable :: "32 word list" where
  "crcTable = map (\<lambda>n. (crc_bit_step ^^ 8) (of_nat n)) [0..<256]"

text \<open>
  \<^verbatim>\<open>
  function crc32(buf) {
    let c = 0xffffffff;
    for (let n = 0; n < buf.length; n++) {
      c = crcTable[(c ^ buf[n]) & 0xff] ^ (c >>> 8);
    }
    return c ^ 0xffffffff;
  }
  \<close>
  The index \<open>(c ^ buf[n]) & 0xff\<close> is below 256, so the table lookup is always in range.
  The result of \<open>^\<close> is a signed 32-bit Number in JavaScript: \<open>crc32\<close> returns the
  two's-complement reading of the final bit pattern.
\<close>

fun crc32_loop :: "32 word \<Rightarrow> bytes \<Rightarrow> 32 word" where
  "crc32_loop c [] = c"
| "crc32_loop c (b # buf) =
     crc32_loop (crcTable ! unat ((c XOR ucast b) AND 0xff) XOR drop_bit 8 c) buf"

definition crc32 :: "bytes \<Rightarrow> int" where
  "crc32 buf = sint (crc32_loop 0xffffffff buf XOR 0xffffffff)"

text \<open>
  The CRC of the PNG specification (ISO 3309, ITU-T V.42) in its bit-serial form: the
  register is preset to all ones, every message byte is exclusive-ored into its low end and
  followed by eight shift steps with the reflected polynomial \<open>0xEDB88320\<close>, and the result
  is the ones' complement of the register. This definition uses no table; it is the
  reference the table-driven code is compared with.
\<close>

fun reference_crc_update :: "32 word \<Rightarrow> bytes \<Rightarrow> 32 word" where
  "reference_crc_update c [] = c"
| "reference_crc_update c (b # buf) =
     reference_crc_update ((crc_bit_step ^^ 8) (c XOR ucast b)) buf"

definition reference_crc32 :: "bytes \<Rightarrow> 32 word" where
  "reference_crc32 buf = reference_crc_update 0xffffffff buf XOR 0xffffffff"

section \<open>The platform's text codec\<close>

text \<open>
  \<open>new TextEncoder().encode(s)\<close> and \<open>new TextDecoder('utf-8').decode(bytes)\<close> are
  browser functions specified by the WHATWG Encoding Standard; the source calls them on
  every keyword, chunk type and text. They are modelled from that standard.

  \<open>encode\<close> first converts the JavaScript string to a sequence of Unicode scalar values: a
  high surrogate followed by a low surrogate is one supplementary code point, any other
  surrogate code unit becomes \<open>U+FFFD\<close>. Each scalar value is then written in UTF-8.
\<close>

definition is_high_surrogate :: "16 word \<Rightarrow> bool" where
  "is_high_surrogate u \<longleftrightarrow> 0xD800 \<le> u \<and> u \<le> 0xDBFF"

definition is_low_surrogate :: "16 word \<Rightarrow> bool" where
  "is_low_surrogate u \<longleftrightarrow> 0xDC00 \<le> u \<and> u \<le> 0xDFFF"

fun to_scalar_values :: "js_string \<Rightarrow> nat list" where
  "to_scalar_values [] = []"
| "to_scalar_values [u] =
     (if is_high_surrogate u \<or> is_low_surrogate u then [0xFFFD] else [unat u])"
| "to_scalar_values (u # v # rest) =
     (if is_high_surrogate u then
        (if is_low_surrogate v
         then (0x10000 + (unat u - 0xD800) * 0x400 + (unat v - 0xDC00)) # to_scalar_values rest
         else 0xFFFD # to_scalar_values (v # rest))
      else if is_low_surrogate u then 0xFFFD # to_scalar_values (v # rest)
      else unat u # to_scalar_values (v # rest))"

text \<open>
  The UTF-8 encoder of the standard: one byte below \<open>U+0080\<close>, otherwise a lead byte
  \<open>(cp >> 6 * count) + offset\<close> and \<open>count\<close> continuation bytes
  \<open>0x80 | ((cp >> 6 * k) & 0x3F)\<close>. Shifts and masks of non-negative integers are written
  with \<open>div\<close> and \<open>mod\<close>.
\<close>

definition utf8_encode_scalar :: "nat \<Rightarrow> bytes" where
  "utf8_encode_scalar cp =
     (if cp < 0x80 then [of_nat cp]
      else if cp < 0x800 then
        [of_nat (0xC0 + cp div 64), of_nat (0x80 + cp mod 64)]
      else if cp < 0x10000 then
        [of_nat (0xE0 + cp div 4096), of_nat (0x80 + (cp div 64) mod 64),
         of_nat (0x80 + cp mod 64)]
      else
        [of_nat (0xF0 + cp div 262144), of_nat (0x80 + (cp div 4096) mod 64),
         of_nat (0x80 + (cp div 64) mod 64), of_nat (0x80 + cp mod 64)])"

definition TextEncoder_encode :: "js_string \<Rightarrow> bytes" where
  "TextEncoder_encode s = concat (map utf8_encode_scalar (to_scalar_values s))"

text \<open>
  The UTF-8 decoder of the standard, in its default (replacement) error mode. Its state is
  the code point under construction, the number of continuation bytes seen and needed, and
  the lower and upper boundary for the next continuation byte. \<open>utf8_lead_byte\<close> is the
  case distinction the decoder makes on a byte read while no continuation byte is needed:
  emit an ASCII code point, start a sequence (code point bits, bytes needed, boundaries),
  or signal an error. An error emits \<open>U+FFFD\<close>; a byte that is outside the boundaries
  ends the sequence with an error and is then read again as a first byte.
\<close>

datatype utf8_lead = Emit nat | Need nat nat nat nat | Bad

definition utf8_lead_byte :: "nat \<Rightarrow> utf8_lead" where
  "utf8_lead_byte b =
     (if b \<le> 0x7F then Emit b
      else if 0xC2 \<le> b \<and> b \<le> 0xDF then Need (b mod 32) 1 0x80 0xBF
      else if 0xE0 \<le> b \<and> b \<le> 0xEF then
        Need (b mod 16) 2 (if b = 0xE0 then 0xA0 else 0x80) (if b = 0xED then 0x9F else 0xBF)
      else if 0xF0 \<le> b \<and> b \<le> 0xF4 then
        Need (b mod 8) 3 (if b = 0xF0 then 0x90 else 0x80) (if b = 0xF4 then 0x8F else 0xBF)
      else Bad)"

function utf8_decode_from :: "nat \<Rightarrow> nat \<Rightarrow> nat \<Rightarrow> nat \<Rightarrow> nat \<Rightarrow> nat list \<Rightarrow> nat list" where
  "utf8_decode_from cp seen needed lo hi [] = (if needed \<noteq> 0 then [0xFFFD] else [])"
| "utf8_decode_from cp seen needed lo hi (b # bs) =
     (if needed = 0 then
        (case utf8_lead_byte b of
           Emit c \<Rightarrow> c # utf8_decode_from 0 0 0 0x80 0xBF bs
         | Need cp' needed' lo' hi' \<Rightarrow> utf8_decode_from cp' 0 needed' lo' hi' bs
         | Bad \<Rightarrow> 0xFFFD # utf8_decode_from 0 0 0 0x80 0xBF bs)
      else if b < lo \<or> hi < b then 0xFFFD # utf8_decode_from 0 0 0 0x80 0xBF (b # bs)
      else if Suc seen \<noteq> needed
        then utf8_decode_from (cp * 64 + b mod 64) (Suc seen) needed 0x80 0xBF bs
        else (cp * 64 + b mod 64) # utf8_decode_from 0 0 0 0x80 0xBF bs)"
  by pat_completeness auto
termination
  by (relation "measure (\<lambda>(cp, seen, needed, lo, hi, bs).
        2 * length bs + (if needed = 0 then 0 else 1))") auto

abbreviation utf8_decode :: "nat list \<Rightarrow> nat list" where
  "utf8_decode \<equiv> utf8_decode_from 0 0 0 0x80 0xBF"

text \<open>
  \<open>decode\<close> is called without \<open>ignoreBOM\<close>: a leading \<open>U+FEFF\<close> of the decoded text is
  dropped. The scalar values are then written as UTF-16 code units.
\<close>

fun strip_bom :: "nat list \<Rightarrow> nat list" where
  "strip_bom [] = []"
| "strip_bom (c # cs) = (if c = 0xFEFF then cs else c # cs)"

definition utf16_units :: "nat \<Rightarrow> js_string" where
  "utf16_units cp =
     (if cp < 0x10000 then [of_nat cp]
      else [of_nat (0xD800 + (cp - 0x10000) div 0x400),
            of_nat (0xDC00 + (cp - 0x10000) mod 0x400)])"

definition TextDecoder_decode :: "bytes \<Rightarrow> js_string" where
  "TextDecoder_decode input =
     concat (map utf16_units (strip_bom (utf8_decode (map unat input))))"

text \<open>
  Strings that survive encoding and decoding unchanged: well-formed UTF-16 (every
  surrogate is part of a pair) that does not begin with the byte order mark.
\<close>

definition scalar_value :: "nat \<Rightarrow> bool" where
  "scalar_value c \<longleftrightarrow> c < 0x110000 \<and> \<not> (0xD800 \<le> c \<and> c \<le> 0xDFFF)"

fun well_formed_utf16 :: "js_string \<Rightarrow> bool" where
  "well_formed_utf16 [] = True"
| "well_formed_utf16 [u] = (\<not> is_high_surrogate u \<and> \<not> is_low_surrogate u)"
| "well_formed_utf16 (u # v # rest) =
     (if is_high_surrogate u then is_low_surrogate v \<and> well_formed_utf16 rest
      else \<not> is_low_surrogate u \<and> well_formed_utf16 (v # rest))"

definition starts_with_bom :: "js_string \<Rightarrow> bool" where
  "starts_with_bom s = (case s of [] \<Rightarrow> False | u # _ \<Rightarrow> u = 0xFEFF)"

section \<open>Reading a PNG file: \<open>extractPngMetadata\<close>\<close>

text \<open>
  \<open>view.getUint32(byteOffset)\<close> reads four bytes in big-endian order and throws a
  \<open>RangeError\<close> when they are not all inside the buffer. \<open>new Uint8Array(buffer, byteOffset,
  length)\<close> throws a \<open>RangeError\<close> when the view does not fit into the buffer.
\<close>

definition uint32_of_bytes :: "bytes \<Rightarrow> 32 word" where
  "uint32_of_bytes bs = foldl (\<lambda>acc b. push_bit 8 acc OR ucast b) 0 bs"

definition getUint32 :: "bytes \<Rightarrow> nat \<Rightarrow> error + nat" where
  "getUint32 view byteOffset =
     (if byteOffset + 4 \<le> length view
      then Inr (unat (uint32_of_bytes (take 4 (drop byteOffset view))))
      else Inl RangeError)"

definition Uint8Array_view :: "bytes \<Rightarrow> nat \<Rightarrow> nat \<Rightarrow> error + bytes" where
  "Uint8Array_view buffer byteOffset len =
     (if byteOffset + len \<le> length buffer
      then Inr (take len (drop byteOffset buffer))
      else Inl RangeError)"

text \<open>
  \<^verbatim>\<open>
  let nullIndex = -1;
  for (let i = 0; i < length; i++) {
    if (chunkData[i] === 0) { nullIndex = i; break; }
  }
  \<close>
\<close>

fun find_null :: "bytes \<Rightarrow> nat \<Rightarrow> int" where
  "find_null [] i = - 1"
| "find_null (b # chunkData) i = (if b = 0 then int i else find_null chunkData (Suc i))"

text \<open>
  The \<open>while\<close> loop of \<open>extractPngMetadata\<close>. Its result is the value of the variable
  \<open>parameters\<close> when the loop is left: \<open>None\<close> for \<open>null\<close>, \<open>Some text\<close> after the
  \<open>break\<close>.
  \<^verbatim>\<open>
  while (offset < buffer.byteLength) {
    const length = view.getUint32(offset);
    const type = textDecoder.decode(new Uint8Array(buffer, offset + 4, 4));
    if (type === 'tEXt') {
      const chunkData = new Uint8Array(buffer, offset + 8, length);
      ...
      if (nullIndex > -1) {
        const keyword = textDecoder.decode(chunkData.slice(0, nullIndex));
        if (keyword === 'parameters') {
            const text = textDecoder.decode(chunkData.slice(nullIndex + 1));
            parameters = text;
            break; // Found it
        }
      }
    }
    offset += 12 + length; // Length(4) + Type(4) + Data(length) + CRC(4)
  }
  \<close>
  Every iteration moves \<open>offset\<close> forward by at least 12, so the loop terminates.
\<close>

function extract_loop :: "bytes \<Rightarrow> nat \<Rightarrow> error + js_string option" where
  "extract_loop buffer offset =
     (if offset < length buffer then
        (case getUint32 buffer offset of
           Inl e \<Rightarrow> Inl e
         | Inr len \<Rightarrow>
            (case Uint8Array_view buffer (offset + 4) 4 of
               Inl e \<Rightarrow> Inl e
             | Inr type_bytes \<Rightarrow>
                if TextDecoder_decode type_bytes = js_lit ''tEXt'' then
                  (case Uint8Array_view buffer (offset + 8) len of
                     Inl e \<Rightarrow> Inl e
                   | Inr chunkData \<Rightarrow>
                      let nullIndex = find_null chunkData 0 in
                      if nullIndex > - 1 then
                        if TextDecoder_decode (take (nat nullIndex) chunkData)
                           = js_lit ''parameters''
                        then Inr (Some (TextDecoder_decode (drop (nat nullIndex + 1) chunkData)))
                        else extract_loop buffer (offset + (12 + len))
                      else extract_loop buffer (offset + (12 + len)))
                else extract_loop buffer (offset + (12 + len))))
      else Inr None)"
  by pat_completeness auto
termination
  by (relation "measure (\<lambda>(buffer, offset). length buffer - offset)") auto

declare extract_loop.simps [simp del]

text \<open>
  The metadata objects the component caches: \<open>{ type: 'png', data: text }\<close> made by
  \<open>extractPngMetadata\<close> and \<open>{ type: 'jpg', data: exifObj }\<close> made by
  \<open>extractJpgMetadata\<close>; \<open>'x\<close> is the type of the EXIF objects of the JPG library.
\<close>

datatype 'x metadata = PngMeta js_string | JpgMeta 'x

text \<open>
  \<open>return parameters ? { type: 'png', data: parameters } : null;\<close> The empty string is
  falsy in JavaScript, as \<open>null\<close> is.
\<close>

definition png_result :: "js_string option \<Rightarrow> 'x metadata option" where
  "png_result parameters =
     (case parameters of
        None \<Rightarrow> None
      | Some text \<Rightarrow> if text \<noteq> [] then Some (PngMeta text) else None)"

text \<open>
  \<^verbatim>\<open>
  if (view.getUint32(0) !== 0x89504e47 || view.getUint32(4) !== 0x0d0a1a0a) {
    throw new Error(...);
  }
  let offset = 8;
  let parameters = null;
  \<close>
  The argument is the content of the file, which \<open>file.arrayBuffer()\<close> delivers.
\<close>

definition extractPngMetadata :: "bytes \<Rightarrow> error + 'x metadata option" where
  "extractPngMetadata file =
     (case getUint32 file 0 of
        Inl e \<Rightarrow> Inl e
      | Inr w0 \<Rightarrow>
         if w0 \<noteq> 0x89504e47 then Inl NotValidPng
         else
           (case getUint32 file 4 of
              Inl e \<Rightarrow> Inl e
            | Inr w1 \<Rightarrow>
               if w1 \<noteq> 0x0d0a1a0a then Inl NotValidPng
               else
                 (case extract_loop file 8 of
                    Inl e \<Rightarrow> Inl e
                  | Inr parameters \<Rightarrow> Inr (png_result parameters))))"

section \<open>Writing a PNG file: \<open>injectPngMetadata\<close>\<close>

text \<open>
  \<open>injectPngMetadata\<close> allocates buffers and writes into them. To make visible which
  buffer every write goes to, the buffers live in a store: a reference is a number, a
  store maps references to buffer contents and knows the next unused reference. A
  computation takes a store and either throws or returns a value and the new store.
\<close>

record heap =
  cells :: "nat \<Rightarrow> bytes"
  next_ref :: nat

type_synonym 'a js = "heap \<Rightarrow> error + ('a \<times> heap)"

definition js_return :: "'a \<Rightarrow> 'a js" where
  "js_return x h = Inr (x, h)"

definition js_bind :: "'a js \<Rightarrow> ('a \<Rightarrow> 'b js) \<Rightarrow> 'b js" where
  "js_bind m f h = (case m h of Inl e \<Rightarrow> Inl e | Inr (x, h') \<Rightarrow> f x h')"

text \<open>Allocation of a buffer with given contents, reading a buffer, updating a buffer.\<close>

definition new_buffer :: "bytes \<Rightarrow> nat js" where
  "new_buffer contents h =
     Inr (next_ref h,
          h\<lparr>cells := (cells h)(next_ref h := contents), next_ref := Suc (next_ref h)\<rparr>)"

definition read_buffer :: "nat \<Rightarrow> bytes js" where
  "read_buffer r h = Inr (cells h r, h)"

definition modify_buffer :: "nat \<Rightarrow> (bytes \<Rightarrow> error + bytes) \<Rightarrow> unit js" where
  "modify_buffer r f h =
     (case f (cells h r) of
        Inl e \<Rightarrow> Inl e
      | Inr contents \<Rightarrow> Inr ((), h\<lparr>cells := (cells h)(r := contents)\<rparr>))"

text \<open>
  \<open>target.set(source, offset)\<close> of a typed array overwrites \<open>source.length\<close> elements from
  \<open>offset\<close> on and throws a \<open>RangeError\<close> when they do not fit. The \<open>DataView\<close> setters
  write the low 32 or 8 bits of their argument, big-endian, and throw a \<open>RangeError\<close>
  outside the buffer. An indexed assignment outside a typed array is ignored.
  \<open>buf.slice(start, end)\<close> copies the elements from \<open>start\<close> up to \<open>end\<close>.
\<close>

definition uint32_bytes :: "32 word \<Rightarrow> bytes" where
  "uint32_bytes w =
     [ucast (drop_bit 24 w), ucast (drop_bit 16 w), ucast (drop_bit 8 w), ucast w]"

definition set_bytes :: "bytes \<Rightarrow> nat \<Rightarrow> bytes \<Rightarrow> error + bytes" where
  "set_bytes source offset target =
     (if offset + length source \<le> length target
      then Inr (take offset target @ source @ drop (offset + length source) target)
      else Inl RangeError)"

definition slice :: "bytes \<Rightarrow> nat \<Rightarrow> nat \<Rightarrow> bytes" where
  "slice buf start finish = take (finish - start) (drop start buf)"

definition slice_from :: "bytes \<Rightarrow> nat \<Rightarrow> bytes" where
  "slice_from buf start = drop start buf"

definition setUint32 :: "nat \<Rightarrow> nat \<Rightarrow> int \<Rightarrow> unit js" where
  "setUint32 view byteOffset v =
     modify_buffer view (set_bytes (uint32_bytes (word_of_int v)) byteOffset)"

definition setUint8 :: "nat \<Rightarrow> nat \<Rightarrow> int \<Rightarrow> unit js" where
  "setUint8 view byteOffset v = modify_buffer view (set_bytes [word_of_int v] byteOffset)"

definition typed_array_set :: "nat \<Rightarrow> bytes \<Rightarrow> nat \<Rightarrow> unit js" where
  "typed_array_set target source offset = modify_buffer target (set_bytes source offset)"

definition index_assign :: "nat \<Rightarrow> nat \<Rightarrow> byte \<Rightarrow> unit js" where
  "index_assign target i v = modify_buffer target (\<lambda>contents. Inr (contents[i := v]))"

text \<open>
  \<^verbatim>\<open>
  function writeString(view, offset, string) {
    for (let i = 0; i < string.length; i++) {
      view.setUint8(offset + i, string.charCodeAt(i));
    }
  }
  \<close>
\<close>

fun writeString :: "nat \<Rightarrow> nat \<Rightarrow> js_string \<Rightarrow> unit js" where
  "writeString view offset [] = js_return ()"
| "writeString view offset (ch # string) =
     js_bind (setUint8 view offset (uint ch)) (\<lambda>_. writeString view (offset + 1) string)"

text \<open>
  The body of \<open>injectPngMetadata(file, metadataString)\<close>, statement by statement.
  \<open>originalBuffer\<close> is the buffer \<open>file.arrayBuffer()\<close> delivers; \<open>view\<close> is a \<open>DataView\<close> on
  the buffer of \<open>chunkBuffer\<close>, so both names denote the same reference; \<open>keyData\<close>,
  \<open>textData\<close>, \<open>crcInput\<close> and the two slices of \<open>originalBuffer\<close> are fresh arrays that
  are only read. The result is the content of the \<open>Blob\<close> made from \<open>finalBuffer\<close>.
  \<^verbatim>\<open>
  const chunkLength = keyData.length + 1 + textData.length;
  const chunkBuffer = new Uint8Array(chunkLength + 12);
  const view = new DataView(chunkBuffer.buffer);
  view.setUint32(0, chunkLength);
  writeString(view, 4, "tEXt");
  chunkBuffer.set(keyData, 8);
  chunkBuffer[8 + keyData.length] = 0; // Null separator
  chunkBuffer.set(textData, 8 + keyData.length + 1);
  const crcInput = chunkBuffer.slice(4, 8 + chunkLength);
  view.setUint32(8 + chunkLength, crc32(crcInput));
  // Combine: Signature + New Chunk + Original Data (minus signature)
  // Note: Simple prepend after signature. More robust would be to insert before IDAT,
  // but this usually works for SD readers.
  const finalBuffer = new Uint8Array(originalBuffer.byteLength + chunkBuffer.length);
  finalBuffer.set(new Uint8Array(originalBuffer.slice(0, 8)), 0); // Signature
  finalBuffer.set(chunkBuffer, 8); // New Metadata Chunk
  finalBuffer.set(new Uint8Array(originalBuffer.slice(8)), 8 + chunkBuffer.length);
  return new Blob([finalBuffer], { type: 'image/png' });
  \<close>
\<close>

definition injectPngMetadata :: "bytes \<Rightarrow> js_string \<Rightarrow> bytes js" where
  "injectPngMetadata file metadataString =
     js_bind (new_buffer file) (\<lambda>originalBuffer.
     let keyword = js_lit ''parameters'';
         keyData = TextEncoder_encode keyword;
         textData = TextEncoder_encode metadataString;
         chunkLength = length keyData + 1 + length textData
     in
     js_bind (new_buffer (replicate (chunkLength + 12) 0)) (\<lambda>chunkBuffer.
     let view = chunkBuffer in
     js_bind (setUint32 view 0 (int chunkLength)) (\<lambda>_.
     js_bind (writeString view 4 (js_lit ''tEXt'')) (\<lambda>_.
     js_bind (typed_array_set chunkBuffer keyData 8) (\<lambda>_.
     js_bind (index_assign chunkBuffer (8 + length keyData) 0) (\<lambda>_.
     js_bind (typed_array_set chunkBuffer textData (8 + length keyData + 1)) (\<lambda>_.
     js_bind (read_buffer chunkBuffer) (\<lambda>chunkBytes.
     let crcInput = slice chunkBytes 4 (8 + chunkLength) in
     js_bind (setUint32 view (8 + chunkLength) (crc32 crcInput)) (\<lambda>_.
     js_bind (read_buffer originalBuffer) (\<lambda>original.
     js_bind (read_buffer chunkBuffer) (\<lambda>chunk.
     js_bind (new_buffer (replicate (length original + length chunk) 0)) (\<lambda>finalBuffer.
     js_bind (typed_array_set finalBuffer (slice original 0 8) 0) (\<lambda>_.
     js_bind (typed_array_set finalBuffer chunk 8) (\<lambda>_.
     js_bind (typed_array_set finalBuffer (slice_from original 8) (8 + length chunk)) (\<lambda>_.
     read_buffer finalBuffer)))))))))))))))"

text \<open>
  A caller that is only interested in the produced bytes runs the computation in a store
  without buffers.
\<close>

definition empty_heap :: heap where
  "empty_heap = \<lparr>cells = (\<lambda>_. []), next_ref = 0\<rparr>"

definition run_js :: "'a js \<Rightarrow> error + 'a" where
  "run_js m = (case m empty_heap of Inl e \<Rightarrow> Inl e | Inr (x, h) \<Rightarrow> Inr x)"

section \<open>The JPG helpers\<close>

text \<open>
  \<open>extractJpgMetadata\<close> and \<open>injectJpgMetadata\<close> delegate to the library object
  \<open>window.piexif\<close>, which a script tag loads and which is absent until then. The library
  is a parameter of the model: \<open>piexif_load\<close> stands for \<open>piexif.load\<close> on the file's
  data, \<open>piexif_insert\<close> for \<open>piexif.insert(piexif.dump(obj), data)\<close> followed by the
  conversion of the returned data URL to the bytes of a \<open>Blob\<close>; both may throw.
  \<open>extractJpgMetadata\<close> resolves to \<open>null\<close> on every exception, \<open>injectJpgMetadata\<close>
  rejects with it.
\<close>

record 'x piexif =
  piexif_load :: "bytes \<Rightarrow> error + 'x"
  piexif_insert :: "'x \<Rightarrow> bytes \<Rightarrow> error + bytes"

definition extractJpgMetadata :: "'x piexif option \<Rightarrow> bytes \<Rightarrow> 'x metadata option" where
  "extractJpgMetadata window_piexif file =
     (case window_piexif of
        None \<Rightarrow> None
      | Some lib \<Rightarrow>
         (case piexif_load lib file of
            Inl e \<Rightarrow> None
          | Inr exifObj \<Rightarrow> Some (JpgMeta exifObj)))"

definition injectJpgMetadata :: "'x piexif option \<Rightarrow> bytes \<Rightarrow> 'x \<Rightarrow> error + bytes" where
  "injectJpgMetadata window_piexif file metadataObj =
     (case window_piexif of
        None \<Rightarrow> Inl TypeError
      | Some lib \<Rightarrow> piexif_insert lib metadataObj file)"

section \<open>The handlers of the component\<close>

text \<open>
  The state of \<open>ExifPreserverApp\<close> that the handlers read and set. A status is a kind and
  a message; the messages of the source are Korean sentences and are named here by what
  they say. \<open>processedImage\<close> holds the bytes behind the object URL and the file name.
\<close>

datatype status_type = StatusIdle | StatusLoading | StatusSuccess | StatusError

datatype message =
    MsgWaiting
  | MsgExtracting
  | MsgWebpWarning
  | MsgSaved js_string
  | MsgNoMetadata
  | MsgErrorOccurred error
  | MsgExtractFirst
  | MsgInjecting
  | MsgMismatchPng
  | MsgMismatchJpg
  | MsgRestored
  | MsgInjectFailed error

record js_file =
  file_type :: js_string
  file_name :: js_string
  file_bytes :: bytes

record 'x app_state =
  cachedMetadata :: "'x metadata option"
  sourceFileName :: js_string
  processedImage :: "(bytes \<times> js_string) option"
  status :: "status_type \<times> message"

text \<open>
  \<^verbatim>\<open>
  const handleExtract = async (file) => {
    setStatus({ type: 'loading', msg: ... });
    setProcessedImage(null); // Reset step 2 result
    try {
      let result = null;
      if (file.type === 'image/png') {
        result = await extractPngMetadata(file);
      } else if (file.type === 'image/jpeg') {
        if (!window.piexif) throw new Error(...);
        result = await extractJpgMetadata(file);
      } else if (file.type === 'image/webp') {
        // WebP simple support warning
        setStatus({ type: 'error', msg: ... });
        return;
      }
      if (result) {
        setCachedMetadata(result);
        setSourceFileName(file.name);
        setStatus({ type: 'success', msg: ... });
      } else {
        setStatus({ type: 'error', msg: ... });
      }
    } catch (e) {
      setStatus({ type: 'error', msg: ... e.message ... });
    }
  };
  \<close>
  The model returns the state after the handler has run.
\<close>

definition handleExtract :: "'x piexif option \<Rightarrow> 'x app_state \<Rightarrow> js_file \<Rightarrow> 'x app_state" where
  "handleExtract window_piexif st file =
     (let st1 = st\<lparr>status := (StatusLoading, MsgExtracting), processedImage := None\<rparr>;
          finish = (\<lambda>result.
            case result of
              Some m \<Rightarrow>
                st1\<lparr>cachedMetadata := Some m, sourceFileName := file_name file,
                    status := (StatusSuccess, MsgSaved (file_name file))\<rparr>
            | None \<Rightarrow> st1\<lparr>status := (StatusError, MsgNoMetadata)\<rparr>);
          failed = (\<lambda>e. st1\<lparr>status := (StatusError, MsgErrorOccurred e)\<rparr>)
      in
      if file_type file = js_lit ''image/png'' then
        (case extractPngMetadata (file_bytes file) of
           Inl e \<Rightarrow> failed e
         | Inr result \<Rightarrow> finish result)
      else if file_type file = js_lit ''image/jpeg'' then
        (case window_piexif of
           None \<Rightarrow> failed JpgLibraryLoading
         | Some lib \<Rightarrow> finish (extractJpgMetadata window_piexif (file_bytes file)))
      else if file_type file = js_lit ''image/webp'' then
        st1\<lparr>status := (StatusError, MsgWebpWarning)\<rparr>
      else finish None)"

text \<open>
  \<^verbatim>\<open>
  const handleInject = async (file) => {
    if (!cachedMetadata) {
      setStatus({ type: 'error', msg: ... });
      return;
    }
    setStatus({ type: 'loading', msg: ... });
    try {
      let finalBlob = null;
      // Handle Format Mismatch warnings
      if (file.type === 'image/png' && cachedMetadata.type !== 'png') {
        setStatus({ type: 'error', msg: ... });
        return;
      }
      if (file.type === 'image/jpeg' && cachedMetadata.type !== 'jpg') {
        setStatus({ type: 'error', msg: ... });
        return;
      }
      if (file.type === 'image/png') {
        finalBlob = await injectPngMetadata(file, cachedMetadata.data);
      } else if (file.type === 'image/jpeg') {
        finalBlob = await injectJpgMetadata(file, cachedMetadata.data);
      }
      if (finalBlob) {
        const url = URL.createObjectURL(finalBlob);
        setProcessedImage({ url, name: `fixed_${file.name}` });
        setStatus({ type: 'success', msg: ... });
      }
    } catch (e) {
      setStatus({ type: 'error', msg: ... e.message ... });
    }
  };
  \<close>
  After the two mismatch checks the cached object of a PNG target has type \<open>'png'\<close> and
  that of a JPEG target type \<open>'jpg'\<close>; the other constructor cannot occur in the dispatch.
\<close>

definition metadata_type :: "'x metadata \<Rightarrow> js_string" where
  "metadata_type m = (case m of PngMeta text \<Rightarrow> js_lit ''png'' | JpgMeta obj \<Rightarrow> js_lit ''jpg'')"

definition handleInject :: "'x piexif option \<Rightarrow> 'x app_state \<Rightarrow> js_file \<Rightarrow> 'x app_state" where
  "handleInject window_piexif st file =
     (case cachedMetadata st of
        None \<Rightarrow> st\<lparr>status := (StatusError, MsgExtractFirst)\<rparr>
      | Some cached \<Rightarrow>
         let st1 = st\<lparr>status := (StatusLoading, MsgInjecting)\<rparr>;
             finish = (\<lambda>finalBlob.
               case finalBlob of
                 Inl e \<Rightarrow> st1\<lparr>status := (StatusError, MsgInjectFailed e)\<rparr>
               | Inr blob \<Rightarrow>
                   st1\<lparr>processedImage := Some (blob, js_lit ''fixed_'' @ file_name file),
                       status := (StatusSuccess, MsgRestored)\<rparr>)
         in
         if file_type file = js_lit ''image/png'' \<and> metadata_type cached \<noteq> js_lit ''png''
         then st1\<lparr>status := (StatusError, MsgMismatchPng)\<rparr>
         else if file_type file = js_lit ''image/jpeg'' \<and> metadata_type cached \<noteq> js_lit ''jpg''
         then st1\<lparr>status := (StatusError, MsgMismatchJpg)\<rparr>
         else if file_type file = js_lit ''image/png'' then
           (case cached of
              PngMeta text \<Rightarrow> finish (run_js (injectPngMetadata (file_bytes file) text))
            | JpgMeta obj \<Rightarrow> st1)
         else if file_type file = js_lit ''image/jpeg'' then
           (case cached of
              JpgMeta obj \<Rightarrow> finish (injectJpgMetadata window_piexif (file_bytes file) obj)
            | PngMeta text \<Rightarrow> st1)
         else st1)"

section \<open>The second snapshot: \<open>package-lock.json\<close>\<close>

text \<open>
  The PNG helpers of the second snapshot. Its buffers are local to the functions and no
  property below depends on which buffer a write goes to, so a buffer is passed as a
  value here: every statement that writes into a buffer returns the buffer's new contents.
  \<open>then_do\<close> sequences two steps of which the first may throw.
\<close>

definition then_do :: "error + 'a \<Rightarrow> ('a \<Rightarrow> error + 'b) \<Rightarrow> error + 'b" where
  "then_do m f = (case m of Inl e \<Rightarrow> Inl e | Inr x \<Rightarrow> f x)"

text \<open>
  \<open>writeString\<close> is the same function in both snapshots; this is its form on buffer
  contents.
\<close>

fun writeString_bytes :: "bytes \<Rightarrow> nat \<Rightarrow> js_string \<Rightarrow> error + bytes" where
  "writeString_bytes view offset [] = Inr view"
| "writeString_bytes view offset (ch # string) =
     then_do (set_bytes [word_of_int (uint ch)] offset view)
       (\<lambda>view. writeString_bytes view (offset + 1) string)"

text \<open>
  \<^verbatim>\<open>
  function createPngTextChunk(keyword, text) {
    const encoder = new TextEncoder();
    const keyData = encoder.encode(keyword);
    const textData = encoder.encode(text);
    const chunkLength = keyData.length + 1 + textData.length;
    const chunkBuffer = new Uint8Array(chunkLength + 12);
    const view = new DataView(chunkBuffer.buffer);
    view.setUint32(0, chunkLength);
    writeString(view, 4, "tEXt");
    chunkBuffer.set(keyData, 8);
    chunkBuffer[8 + keyData.length] = 0; // Null separator
    chunkBuffer.set(textData, 8 + keyData.length + 1);
    const crcInput = chunkBuffer.slice(4, 8 + chunkLength);
    view.setUint32(8 + chunkLength, crc32(crcInput));
    return chunkBuffer;
  }
  \<close>
\<close>

definition createPngTextChunk :: "js_string \<Rightarrow> js_string \<Rightarrow> error + bytes" where
  "createPngTextChunk keyword text =
     (let keyData = TextEncoder_encode keyword;
          textData = TextEncoder_encode text;
          chunkLength = length keyData + 1 + length textData;
          chunkBuffer = replicate (chunkLength + 12) 0
      in
      then_do (set_bytes (uint32_bytes (word_of_int (int chunkLength))) 0 chunkBuffer) (\<lambda>chunkBuffer.
      then_do (writeString_bytes chunkBuffer 4 (js_lit ''tEXt'')) (\<lambda>chunkBuffer.
      then_do (set_bytes keyData 8 chunkBuffer) (\<lambda>chunkBuffer.
      let chunkBuffer = chunkBuffer[8 + length keyData := 0] in
      then_do (set_bytes textData (8 + length keyData + 1) chunkBuffer) (\<lambda>chunkBuffer.
      let crcInput = slice chunkBuffer 4 (8 + chunkLength) in
      then_do (set_bytes (uint32_bytes (word_of_int (crc32 crcInput))) (8 + chunkLength) chunkBuffer)
        (\<lambda>chunkBuffer. Inr chunkBuffer))))))"

text \<open>
  The \<open>while\<close> loop of the second snapshot's \<open>extractPngMetadata\<close>. It differs from the
  loop of \<open>src/App.jsx\<close> in the keyword test and in what it does on a hit: it appends to
  the array \<open>chunks\<close> and goes on.
  \<^verbatim>\<open>
  if (nullIndex > -1) {
    const keyword = textDecoder.decode(chunkData.slice(0, nullIndex));
    // Check for A1111 OR ComfyUI keywords
    if (['parameters', 'prompt', 'workflow'].includes(keyword)) {
        const text = textDecoder.decode(chunkData.slice(nullIndex + 1));
        chunks.push({ keyword, text });
    }
  }
  \<close>
\<close>

function extract_loop2 ::
  "bytes \<Rightarrow> nat \<Rightarrow> (js_string \<times> js_string) list \<Rightarrow> error + (js_string \<times> js_string) list" where
  "extract_loop2 buffer offset chunks =
     (if offset < length buffer then
        (case getUint32 buffer offset of
           Inl e \<Rightarrow> Inl e
         | Inr len \<Rightarrow>
            (case Uint8Array_view buffer (offset + 4) 4 of
               Inl e \<Rightarrow> Inl e
             | Inr type_bytes \<Rightarrow>
                if TextDecoder_decode type_bytes = js_lit ''tEXt'' then
                  (case Uint8Array_view buffer (offset + 8) len of
                     Inl e \<Rightarrow> Inl e
                   | Inr chunkData \<Rightarrow>
                      let nullIndex = find_null chunkData 0 in
                      if nullIndex > - 1 then
                        let keyword = TextDecoder_decode (take (nat nullIndex) chunkData) in
                        if keyword \<in> set [js_lit ''parameters'', js_lit ''prompt'', js_lit ''workflow'']
                        then extract_loop2 buffer (offset + (12 + len))
                               (chunks @ [(keyword,
                                  TextDecoder_decode (drop (nat nullIndex + 1) chunkData))])
                        else extract_loop2 buffer (offset + (12 + len)) chunks
                      else extract_loop2 buffer (offset + (12 + len)) chunks)
                else extract_loop2 buffer (offset + (12 + len)) chunks))
      else Inr chunks)"
  by pat_completeness auto
termination
  by (relation "measure (\<lambda>(buffer, offset, chunks). length buffer - offset)") auto

declare extract_loop2.simps [simp del]

text \<open>
  The signature check is the one of \<open>src/App.jsx\<close>; the result is
  \<open>chunks.length > 0 ? { type: 'png', data: chunks } : null\<close>.
\<close>

definition extractPngMetadata2 :: "bytes \<Rightarrow> error + (js_string \<times> js_string) list option" where
  "extractPngMetadata2 file =
     then_do (getUint32 file 0) (\<lambda>w0.
     if w0 \<noteq> 0x89504e47 then Inl NotValidPng
     else
     then_do (getUint32 file 4) (\<lambda>w1.
     if w1 \<noteq> 0x0d0a1a0a then Inl NotValidPng
     else
     then_do (extract_loop2 file 8 []) (\<lambda>chunks.
     Inr (if length chunks > 0 then Some chunks else None))))"

text \<open>
  The second snapshot's \<open>injectPngMetadata(file, chunks)\<close>: its signature check, the end
  of the header chunk, and its two loops.
  \<^verbatim>\<open>
  if (view.getUint32(0) !== 0x89504e47 || view.getUint32(4) !== 0x0d0a1a0a) {
    throw new Error(...);
  }
  // IHDR must be the first chunk
  const ihdrLength = view.getUint32(8);
  // 8(Sig) + 4(Len) + 4(Type) + Data(ihdrLength) + 4(CRC)
  const ihdrEndIndex = 8 + 4 + 4 + ihdrLength + 4;
  const newChunkBuffers = [];
  let totalNewChunkSize = 0;
  for (const chunk of chunks) {
    const buffer = createPngTextChunk(chunk.keyword, chunk.text);
    newChunkBuffers.push(buffer);
    totalNewChunkSize += buffer.length;
  }
  const finalBuffer = new Uint8Array(originalBuffer.byteLength + totalNewChunkSize);
  // Part A: Signature + IHDR (Copy strictly up to the end of IHDR)
  finalBuffer.set(new Uint8Array(originalBuffer.slice(0, ihdrEndIndex)), 0);
  // Part B: Insert New Metadata Chunks
  let currentOffset = ihdrEndIndex;
  for (const buf of newChunkBuffers) {
      finalBuffer.set(buf, currentOffset);
      currentOffset += buf.length;
  }
  // Part C: The rest of the original file (IDAT, IEND, etc.)
  finalBuffer.set(new Uint8Array(originalBuffer.slice(ihdrEndIndex)), currentOffset);
  return new Blob([finalBuffer], { type: 'image/png' });
  \<close>
\<close>

fun new_chunk_loop ::
  "(js_string \<times> js_string) list \<Rightarrow> bytes list \<Rightarrow> nat \<Rightarrow> error + (bytes list \<times> nat)" where
  "new_chunk_loop [] newChunkBuffers totalNewChunkSize = Inr (newChunkBuffers, totalNewChunkSize)"
| "new_chunk_loop ((keyword, text) # chunks) newChunkBuffers totalNewChunkSize =
     then_do (createPngTextChunk keyword text) (\<lambda>buffer.
     new_chunk_loop chunks (newChunkBuffers @ [buffer]) (totalNewChunkSize + length buffer))"

fun insert_loop :: "bytes \<Rightarrow> bytes list \<Rightarrow> nat \<Rightarrow> error + (bytes \<times> nat)" where
  "insert_loop finalBuffer [] currentOffset = Inr (finalBuffer, currentOffset)"
| "insert_loop finalBuffer (buf # newChunkBuffers) currentOffset =
     then_do (set_bytes buf currentOffset finalBuffer) (\<lambda>finalBuffer.
     insert_loop finalBuffer newChunkBuffers (currentOffset + length buf))"

definition injectPngMetadata2 :: "bytes \<Rightarrow> (js_string \<times> js_string) list \<Rightarrow> error + bytes" where
  "injectPngMetadata2 file chunks =
     then_do (getUint32 file 0) (\<lambda>w0.
     if w0 \<noteq> 0x89504e47 then Inl NotValidPng
     else
     then_do (getUint32 file 4) (\<lambda>w1.
     if w1 \<noteq> 0x0d0a1a0a then Inl NotValidPng
     else
     then_do (getUint32 file 8) (\<lambda>ihdrLength.
     let ihdrEndIndex = 8 + 4 + 4 + ihdrLength + 4 in
     then_do (new_chunk_loop chunks [] 0) (\<lambda>(newChunkBuffers, totalNewChunkSize).
     let finalBuffer = replicate (length file + totalNewChunkSize) 0 in
     then_do (set_bytes (slice file 0 ihdrEndIndex) 0 finalBuffer) (\<lambda>finalBuffer.
     then_do (insert_loop finalBuffer newChunkBuffers ihdrEndIndex) (\<lambda>(finalBuffer, currentOffset).
     then_do (set_bytes (slice_from file ihdrEndIndex) currentOffset finalBuffer) (\<lambda>finalBuffer.
     Inr finalBuffer)))))))"

section \<open>PNG files as chunk sequences\<close>

text \<open>
  The vocabulary in which the properties are stated. A PNG file is the eight signature
  bytes followed by chunks; a chunk is written as its data length (four bytes,
  big-endian), its four type bytes, its data and four CRC bytes. The reader does not
  check CRCs, so a well-formed layout only asks for the field widths.
\<close>

definition png_signature :: bytes where
  "png_signature = [0x89, 0x50, 0x4E, 0x47, 0x0D, 0x0A, 0x1A, 0x0A]"

definition has_png_signature :: "bytes \<Rightarrow> bool" where
  "has_png_signature file \<longleftrightarrow> take 8 file = png_signature"

record png_chunk =
  chunk_type :: bytes
  chunk_data :: bytes
  chunk_crc :: bytes

definition chunk_bytes :: "png_chunk \<Rightarrow> bytes" where
  "chunk_bytes c =
     uint32_bytes (of_nat (length (chunk_data c))) @ chunk_type c @ chunk_data c @ chunk_crc c"

definition well_formed_chunk :: "png_chunk \<Rightarrow> bool" where
  "well_formed_chunk c \<longleftrightarrow>
     length (chunk_type c) = 4 \<and> length (chunk_crc c) = 4 \<and> length (chunk_data c) < 2 ^ 32"

definition png_file :: "png_chunk list \<Rightarrow> bytes" where
  "png_file cs = png_signature @ concat (map chunk_bytes cs)"

text \<open>A chunk with the CRC the PNG specification asks for, computed by \<open>crc32\<close>.\<close>

definition make_chunk :: "bytes \<Rightarrow> bytes \<Rightarrow> png_chunk" where
  "make_chunk ty d =
     \<lparr>chunk_type = ty, chunk_data = d, chunk_crc = uint32_bytes (word_of_int (crc32 (ty @ d)))\<rparr>"

definition text_chunk :: "bytes \<Rightarrow> bytes \<Rightarrow> png_chunk" where
  "text_chunk keyword text = make_chunk (ascii ''tEXt'') (keyword @ [0] @ text)"

text \<open>The chunk \<open>injectPngMetadata\<close> builds for a text.\<close>

definition parameters_chunk :: "js_string \<Rightarrow> png_chunk" where
  "parameters_chunk text =
     text_chunk (TextEncoder_encode (js_lit ''parameters'')) (TextEncoder_encode text)"

text \<open>The chunk \<open>createPngTextChunk\<close> builds for an entry.\<close>

definition entry_chunk :: "js_string \<times> js_string \<Rightarrow> png_chunk" where
  "entry_chunk entry = text_chunk (TextEncoder_encode (fst entry)) (TextEncoder_encode (snd entry))"

text \<open>
  The text entry a chunk carries, as the reader sees it: the type decodes to \<open>tEXt\<close>, the
  data contains a zero byte, and keyword and text are the decoded bytes before and after
  the first one. \<open>parameters_text\<close> is the text of an entry whose keyword is
  \<open>parameters\<close>; \<open>first_parameters\<close> is the first such text of a chunk sequence.
\<close>

definition text_entry :: "png_chunk \<Rightarrow> (js_string \<times> js_string) option" where
  "text_entry c =
     (if TextDecoder_decode (chunk_type c) = js_lit ''tEXt'' \<and> find_null (chunk_data c) 0 > - 1
      then Some (TextDecoder_decode (take (nat (find_null (chunk_data c) 0)) (chunk_data c)),
                 TextDecoder_decode (drop (nat (find_null (chunk_data c) 0) + 1) (chunk_data c)))
      else None)"

definition parameters_text :: "png_chunk \<Rightarrow> js_string option" where
  "parameters_text c =
     (case text_entry c of
        None \<Rightarrow> None
      | Some (keyword, text) \<Rightarrow> if keyword = js_lit ''parameters'' then Some text else None)"

fun first_parameters :: "png_chunk list \<Rightarrow> js_string option" where
  "first_parameters [] = None"
| "first_parameters (c # cs) =
     (case parameters_text c of Some text \<Rightarrow> Some text | None \<Rightarrow> first_parameters cs)"

text \<open>
  The keywords the specification calls recognized, and the entries its extract operation
  collects: every text entry with a recognized keyword, in file order.
\<close>

definition recognized_keywords :: "js_string list" where
  "recognized_keywords = [js_lit ''parameters'', js_lit ''prompt'', js_lit ''workflow'']"

definition carries_recognized_keyword :: "png_chunk \<Rightarrow> bool" where
  "carries_recognized_keyword c =
     (case text_entry c of
        None \<Rightarrow> False
      | Some (keyword, text) \<Rightarrow> keyword \<in> set recognized_keywords)"

definition spec_collected_entries :: "png_chunk list \<Rightarrow> (js_string \<times> js_string) list" where
  "spec_collected_entries cs =
     filter (\<lambda>(keyword, text). keyword \<in> set recognized_keywords)
       (List.map_filter text_entry cs)"

text \<open>
  The insertion point and the output the specification describes for the inject
  operation: \<open>headerEnd = 8 + 4 + 4 + headerLength + 4\<close>, with the header length read at
  offset 8, and the new chunk buffers between the two parts of the file split there.
\<close>

definition spec_header_end :: "bytes \<Rightarrow> nat" where
  "spec_header_end file = 8 + 4 + 4 + unat (uint32_of_bytes (take 4 (drop 8 file))) + 4"

definition spec_inject_output :: "bytes \<Rightarrow> bytes list \<Rightarrow> bytes" where
  "spec_inject_output file new_chunks =
     take (spec_header_end file) file @ concat new_chunks @ drop (spec_header_end file) file"

text \<open>Injecting a text into a file and extracting from the produced bytes.\<close>

definition inject_then_extract :: "bytes \<Rightarrow> js_string \<Rightarrow> error + 'x metadata option" where
  "inject_then_extract file text =
     (case run_js (injectPngMetadata file text) of
        Inl e \<Rightarrow> Inl e
      | Inr output \<Rightarrow> extractPngMetadata output)"

text \<open>
  A minimal PNG image of one pixel: signature, \<open>IHDR\<close> (width 1, height 1, bit depth 8,
  greyscale), one \<open>IDAT\<close> chunk and \<open>IEND\<close>, without any \<open>tEXt\<close> chunk.
\<close>

definition minimal_png_chunks :: "png_chunk list" where
  "minimal_png_chunks =
     [make_chunk (ascii ''IHDR'') [0, 0, 0, 1, 0, 0, 0, 1, 8, 0, 0, 0, 0],
      make_chunk (ascii ''IDAT'') [0x78, 0x9C, 0x63, 0x60, 0x00, 0x00, 0x00, 0x02, 0x00, 0x01],
      make_chunk (ascii ''IEND'') []]"

definition minimal_png :: bytes where
  "minimal_png = png_file minimal_png_chunks"

section \<open>Example files and states\<close>

text \<open>
  Concrete inputs at which the properties below are instantiated: the minimal PNG with its
  first byte overwritten; chunk sequences with several keywords, with a second
  \<open>parameters\<close> chunk, with an empty \<open>parameters\<close> text and with a \<open>tEXt\<close> chunk that has
  no separator; a component state holding PNG metadata; a JPEG and a WebP target file.
\<close>

definition corrupted_png :: bytes where
  "corrupted_png = 0x00 # tl minimal_png"

definition multi_keyword_chunks :: "png_chunk list" where
  "multi_keyword_chunks =
     [text_chunk (ascii ''workflow'') (ascii ''{}''), text_chunk (ascii ''prompt'') (ascii ''abc'')]"

definition mixed_chunks :: "png_chunk list" where
  "mixed_chunks =
     [text_chunk (ascii ''prompt'') (ascii ''abc''),
      text_chunk (ascii ''parameters'') (ascii ''hello''),
      text_chunk (ascii ''parameters'') (ascii ''later'')]"

definition empty_first_chunks :: "png_chunk list" where
  "empty_first_chunks =
     [text_chunk (ascii ''parameters'') [], text_chunk (ascii ''parameters'') (ascii ''x'')]"

definition malformed_then_parameters :: "png_chunk list" where
  "malformed_then_parameters =
     [make_chunk (ascii ''tEXt'') (ascii ''no separator''),
      text_chunk (ascii ''parameters'') (ascii ''hello'')]"

definition cached_png_state :: "unit app_state" where
  "cached_png_state =
     \<lparr>cachedMetadata = Some (PngMeta (js_lit ''best quality, 1girl'')),
      sourceFileName = js_lit ''a.png'',
      processedImage = None,
      status = (StatusSuccess, MsgSaved (js_lit ''a.png''))\<rparr>"

definition jpeg_target :: js_file where
  "jpeg_target =
     \<lparr>file_type = js_lit ''image/jpeg'', file_name = js_lit ''b.jpg'',
      file_bytes = [0xFF, 0xD8, 0xFF, 0xD9]\<rparr>"

definition webp_target :: js_file where
  "webp_target =
     \<lparr>file_type = js_lit ''image/webp'', file_name = js_lit ''c.webp'',
      file_bytes = ascii ''RIFF'' @ [4, 0, 0, 0] @ ascii ''WEBP''\<rparr>"

chapter \<open>Properties\<close>

section \<open>Properties of the CRC\<close>

lemma crc_bit_step_alt:
  "crc_bit_step c = drop_bit 1 c XOR (if odd c then 0xedb88320 else 0)"
  by (cases "even c")
    (simp_all add: crc_bit_step_def and_one_eq xor.commute even_iff_mod_2_eq_zero
      odd_iff_mod_2_eq_one)

lemma crc_bit_step_xor:
  "crc_bit_step (a XOR b) = crc_bit_step a XOR crc_bit_step b"
  by (cases "even a"; cases "even b") (simp_all add: crc_bit_step_alt even_xor_iff ac_simps)

lemma crc_bit_steps_xor:
  "(crc_bit_step ^^ k) (a XOR b) = (crc_bit_step ^^ k) a XOR (crc_bit_step ^^ k) b"
  by (induction k arbitrary: a b) (simp_all add: crc_bit_step_xor funpow_swap1)

lemma crc_bit_steps_high:
  "take_bit k c = 0 \<Longrightarrow> (crc_bit_step ^^ k) c = drop_bit k c"
proof (induction k arbitrary: c)
  case 0
  then show ?case by simp
next
  case (Suc k)
  have e: "even c" using Suc.prems
    by (metis Zero_not_Suc dvd_0_right even_take_bit_eq)
  have "take_bit (Suc k - 1) (drop_bit 1 c) = drop_bit 1 (take_bit (Suc k) c)"
    by (simp only: drop_bit_take_bit)
  then have t: "take_bit k (drop_bit 1 c) = 0" using Suc.prems by simp
  have s: "crc_bit_step c = drop_bit 1 c" using e by (simp add: crc_bit_step_alt)
  have "(crc_bit_step ^^ Suc k) c = (crc_bit_step ^^ k) (crc_bit_step c)"
    by (simp add: funpow_swap1)
  also have "\<dots> = drop_bit k (drop_bit 1 c)" using Suc.IH[OF t] s by simp
  finally show ?case by (simp add: drop_bit_drop_bit)
qed

lemma crcTable_nth:
  fixes x :: "32 word"
  shows "crcTable ! unat (x AND 0xff) = (crc_bit_step ^^ 8) (x AND 0xff)"
proof -
  define n where "n = unat (take_bit 8 x)"
  have x: "x AND 0xff = take_bit 8 x"
    by (simp add: take_bit_eq_mask mask_eq_exp_minus_1)
  have "take_bit 8 (unat x) < 2 ^ 8"
    by (rule take_bit_nat_less_exp)
  then have n: "n < 256"
    by (simp add: n_def unsigned_take_bit_eq)
  have "crcTable ! n = (crc_bit_step ^^ 8) (of_nat ([0..<256] ! n))"
    unfolding crcTable_def using n by (simp only: nth_map length_upt minus_nat.diff_0)
  also have "[0..<256] ! n = n"
    using n by (simp only: nth_upt add_0)
  also have "of_nat n = take_bit 8 x"
    by (simp only: n_def of_nat_unat ucast_id)
  finally show ?thesis
    by (simp only: x n_def)
qed

text \<open>One table lookup does the work of eight shift steps.\<close>

lemma crc_byte_step:
  fixes c :: "32 word" and b :: byte
  shows "crcTable ! unat ((c XOR ucast b) AND 0xff) XOR drop_bit 8 c
         = (crc_bit_step ^^ 8) (c XOR ucast b)"
proof -
  define y where "y = c XOR ucast b"
  define h where "h = push_bit 8 (drop_bit 8 y)"
  have lo: "y AND 0xff = take_bit 8 y"
    by (simp add: take_bit_eq_mask mask_eq_exp_minus_1)
  have split: "y = take_bit 8 y XOR h"
    unfolding h_def by (rule bit_eqI) (auto simp: bit_simps)
  have hi: "take_bit 8 h = 0"
    by (simp add: h_def take_bit_push_bit)
  have d: "drop_bit 8 h = drop_bit 8 c"
    unfolding h_def y_def by (rule bit_eqI) (auto simp: bit_simps dest: bit_imp_le_length)
  have "(crc_bit_step ^^ 8) y
        = (crc_bit_step ^^ 8) (take_bit 8 y) XOR (crc_bit_step ^^ 8) h"
    by (subst split) (rule crc_bit_steps_xor)
  also have "(crc_bit_step ^^ 8) h = drop_bit 8 c"
    using crc_bit_steps_high[OF hi] d by simp
  finally show ?thesis
    using crcTable_nth[of y] lo by (simp add: y_def del: funpow.simps)
qed

lemma crc32_loop_reference: "crc32_loop c buf = reference_crc_update c buf"
  by (induction buf arbitrary: c)
    (simp_all only: crc32_loop.simps reference_crc_update.simps crc_byte_step)

lemma funpow8: "(f ^^ 8) x = f (f (f (f (f (f (f (f x)))))))"
  by (simp add: eval_nat_numeral)

text \<open>
  Claim C4. On every byte sequence the table-driven \<open>crc32\<close> of the source computes the
  CRC-32 of the PNG specification: read as an unsigned 32-bit value (the value that
  \<open>setUint32\<close> stores in the chunk) its result is the bit-serial reference CRC, and the
  Number it returns is the two's-complement reading of that value. The CRC-32 of the four
  ASCII bytes of \<open>IEND\<close> is \<open>0xAE426082\<close>.
\<close>

theorem crc32_is_png_crc:
  "(word_of_int (crc32 buf) :: 32 word) = reference_crc32 buf
   \<and> crc32 buf = sint (reference_crc32 buf)
   \<and> (word_of_int (crc32 (ascii ''IEND'')) :: 32 word) = 0xAE426082"
proof -
  have eq: "crc32 b = sint (reference_crc32 b)" for b
    by (simp add: crc32_def reference_crc32_def crc32_loop_reference)
  have iend: "reference_crc32 (ascii ''IEND'') = 0xAE426082"
    by (simp add: ascii_def reference_crc32_def funpow8 crc_bit_step_def)
  show ?thesis
    by (simp add: eq iend)
qed

section \<open>Properties of the text codec\<close>

lemma unat_byte_of_nat: "n < 256 \<Longrightarrow> unat (of_nat n :: byte) = n"
  by (simp add: unsigned_of_nat take_bit_nat_eq_self)

lemma utf8_decode_1:
  "b \<le> 0x7F \<Longrightarrow> utf8_decode (b # rest) = b # utf8_decode rest"
  by (simp add: utf8_lead_byte_def)

lemma utf8_decode_2:
  "0xC2 \<le> b1 \<Longrightarrow> b1 \<le> 0xDF \<Longrightarrow> 0x80 \<le> b2 \<Longrightarrow> b2 \<le> 0xBF \<Longrightarrow>
   utf8_decode (b1 # b2 # rest) = (b1 mod 32 * 64 + b2 mod 64) # utf8_decode rest"
  by (simp add: utf8_lead_byte_def)

lemma utf8_decode_3:
  "0xE0 \<le> b1 \<Longrightarrow> b1 \<le> 0xEF \<Longrightarrow> 0x80 \<le> b2 \<Longrightarrow> b2 \<le> 0xBF \<Longrightarrow>
   (b1 = 0xE0 \<longrightarrow> 0xA0 \<le> b2) \<Longrightarrow> (b1 = 0xED \<longrightarrow> b2 \<le> 0x9F) \<Longrightarrow>
   0x80 \<le> b3 \<Longrightarrow> b3 \<le> 0xBF \<Longrightarrow>
   utf8_decode (b1 # b2 # b3 # rest) = ((b1 mod 16 * 64 + b2 mod 64) * 64 + b3 mod 64) # utf8_decode rest"
  by (auto simp add: utf8_lead_byte_def)

lemma utf8_decode_4:
  "0xF0 \<le> b1 \<Longrightarrow> b1 \<le> 0xF4 \<Longrightarrow> 0x80 \<le> b2 \<Longrightarrow> b2 \<le> 0xBF \<Longrightarrow>
   (b1 = 0xF0 \<longrightarrow> 0x90 \<le> b2) \<Longrightarrow> (b1 = 0xF4 \<longrightarrow> b2 \<le> 0x8F) \<Longrightarrow>
   0x80 \<le> b3 \<Longrightarrow> b3 \<le> 0xBF \<Longrightarrow> 0x80 \<le> b4 \<Longrightarrow> b4 \<le> 0xBF \<Longrightarrow>
   utf8_decode (b1 # b2 # b3 # b4 # rest)
   = (((b1 mod 8 * 64 + b2 mod 64) * 64 + b3 mod 64) * 64 + b4 mod 64) # utf8_decode rest"
  by (auto simp add: utf8_lead_byte_def)

lemma split64: "(c::nat) = 64 * (c div 64) + c mod 64" "c mod 64 < 64"
  by simp_all

lemma mod_offset:
  "q < 32 \<Longrightarrow> (192 + q) mod 32 = (q::nat)"
  "q < 16 \<Longrightarrow> (224 + q) mod 16 = (q::nat)"
  "q < 8 \<Longrightarrow> (240 + q) mod 8 = (q::nat)"
  "q < 64 \<Longrightarrow> (128 + q) mod 64 = (q::nat)"
proof -
  have "(32 * 6 + q) mod 32 = q mod 32" "(16 * 14 + q) mod 16 = q mod 16"
    "(8 * 30 + q) mod 8 = q mod 8" "(64 * 2 + q) mod 64 = q mod 64"
    by (rule mod_mult_self4)+
  then show "q < 32 \<Longrightarrow> (192 + q) mod 32 = q" "q < 16 \<Longrightarrow> (224 + q) mod 16 = q"
    "q < 8 \<Longrightarrow> (240 + q) mod 8 = q" "q < 64 \<Longrightarrow> (128 + q) mod 64 = q"
    by simp_all
qed

lemma utf8_decode_encode_scalar:
  assumes "scalar_value c"
  shows "utf8_decode (map unat (utf8_encode_scalar c) @ rest) = c # utf8_decode rest"
proof -
  define q1 r1 where "q1 = c div 64" and "r1 = c mod 64"
  define q2 r2 where "q2 = q1 div 64" and "r2 = q1 mod 64"
  define q3 r3 where "q3 = q2 div 64" and "r3 = q2 mod 64"
  have c: "c = 64 * q1 + r1" "r1 < 64" "q1 = 64 * q2 + r2" "r2 < 64"
    "q2 = 64 * q3 + r3" "r3 < 64"
    unfolding q1_def r1_def q2_def r2_def q3_def r3_def by (rule split64)+
  have "c div (64 * 64) = c div 64 div 64"
    by (rule div_mult2_eq)
  then have d1: "c div 4096 = q2"
    by (simp add: q1_def q2_def)
  have "c div (4096 * 64) = c div 4096 div 64"
    by (rule div_mult2_eq)
  then have d2: "c div 262144 = q3"
    by (simp add: d1 q3_def)
  have d: "c div 4096 = q2" "c div 262144 = q3" "(c div 64) mod 64 = r2"
    "(c div 4096) mod 64 = r3"
    by (simp_all add: d1 d2) (simp_all add: q1_def r2_def r3_def)
  have ns: "\<not> (0xD800 \<le> c \<and> c \<le> 0xDFFF)"
    using assms by (simp add: scalar_value_def)
  consider "c < 0x80" | "0x80 \<le> c" "c < 0x800" | "0x800 \<le> c" "c < 0x10000"
    | "0x10000 \<le> c" "c < 0x110000"
    using assms unfolding scalar_value_def by linarith
  then show ?thesis
  proof cases
    case 1
    then show ?thesis
      using utf8_decode_1[of c rest] by (simp add: utf8_encode_scalar_def unat_byte_of_nat)
  next
    case 2
    define b1 where "b1 = 0xC0 + q1"
    define b2 where "b2 = 0x80 + r1"
    have q: "q1 < 32" using 2 c by linarith
    have r: "0xC2 \<le> b1" "b1 \<le> 0xDF" "0x80 \<le> b2" "b2 \<le> 0xBF"
      using 2 c unfolding b1_def b2_def by linarith+
    have v: "b1 mod 32 * 64 + b2 mod 64 = c"
      using q c unfolding b1_def b2_def by (simp add: mod_offset)
    have "utf8_encode_scalar c = [of_nat b1, of_nat b2]"
      using 2 by (simp add: utf8_encode_scalar_def b1_def b2_def q1_def r1_def)
    moreover have "b1 < 256" "b2 < 256" using r by linarith+
    ultimately have "map unat (utf8_encode_scalar c) = [b1, b2]"
      by (simp only: list.map unat_byte_of_nat)
    then show ?thesis
      using utf8_decode_2[OF r, of rest] v by simp
  next
    case 3
    define b1 where "b1 = 0xE0 + q2"
    define b2 where "b2 = 0x80 + r2"
    define b3 where "b3 = 0x80 + r1"
    have q: "q2 < 16" using 3 c by linarith
    have r: "0xE0 \<le> b1" "b1 \<le> 0xEF" "0x80 \<le> b2" "b2 \<le> 0xBF"
      "b1 = 0xE0 \<longrightarrow> 0xA0 \<le> b2" "b1 = 0xED \<longrightarrow> b2 \<le> 0x9F" "0x80 \<le> b3" "b3 \<le> 0xBF"
      using 3 ns c unfolding b1_def b2_def b3_def by linarith+
    have v: "(b1 mod 16 * 64 + b2 mod 64) * 64 + b3 mod 64 = c"
      using q c unfolding b1_def b2_def b3_def by (simp add: mod_offset)
    have "utf8_encode_scalar c = [of_nat b1, of_nat b2, of_nat b3]"
      using 3 by (simp add: utf8_encode_scalar_def d b1_def b2_def b3_def r1_def)
    moreover have "b1 < 256" "b2 < 256" "b3 < 256" using r by linarith+
    ultimately have "map unat (utf8_encode_scalar c) = [b1, b2, b3]"
      by (simp only: list.map unat_byte_of_nat)
    then show ?thesis
      using utf8_decode_3[OF r, of rest] v by simp
  next
    case 4
    define b1 where "b1 = 0xF0 + q3"
    define b2 where "b2 = 0x80 + r3"
    define b3 where "b3 = 0x80 + r2"
    define b4 where "b4 = 0x80 + r1"
    have q: "q3 < 8" using 4 c by linarith
    have r: "0xF0 \<le> b1" "b1 \<le> 0xF4" "0x80 \<le> b2" "b2 \<le> 0xBF"
      "b1 = 0xF0 \<longrightarrow> 0x90 \<le> b2" "b1 = 0xF4 \<longrightarrow> b2 \<le> 0x8F" "0x80 \<le> b3" "b3 \<le> 0xBF"
      "0x80 \<le> b4" "b4 \<le> 0xBF"
      using 4 c unfolding b1_def b2_def b3_def b4_def by linarith+
    have v: "((b1 mod 8 * 64 + b2 mod 64) * 64 + b3 mod 64) * 64 + b4 mod 64 = c"
      using q c unfolding b1_def b2_def b3_def b4_def by (simp add: mod_offset)
    have "utf8_encode_scalar c = [of_nat b1, of_nat b2, of_nat b3, of_nat b4]"
      using 4 by (simp add: utf8_encode_scalar_def d b1_def b2_def b3_def b4_def r1_def r3_def)
    moreover have "b1 < 256" "b2 < 256" "b3 < 256" "b4 < 256" using r by linarith+
    ultimately have "map unat (utf8_encode_scalar c) = [b1, b2, b3, b4]"
      by (simp only: list.map unat_byte_of_nat)
    then show ?thesis
      using utf8_decode_4[OF r, of rest] v by simp
  qed
qed

lemma utf8_decode_encode:
  "\<forall>c \<in> set cs. scalar_value c \<Longrightarrow>
   utf8_decode (map unat (concat (map utf8_encode_scalar cs))) = cs"
  by (induction cs) (simp_all add: utf8_decode_encode_scalar)

lemma surrogate_unat:
  "is_high_surrogate u \<longleftrightarrow> 0xD800 \<le> unat u \<and> unat u \<le> 0xDBFF"
  "is_low_surrogate u \<longleftrightarrow> 0xDC00 \<le> unat u \<and> unat u \<le> 0xDFFF"
  by (simp_all add: is_high_surrogate_def is_low_surrogate_def word_le_nat_alt)

lemma unat_unit_less: "unat (u :: 16 word) < 65536"
  using unsigned_less[of u] by simp

lemma scalar_value_unat:
  "\<not> is_high_surrogate u \<Longrightarrow> \<not> is_low_surrogate u \<Longrightarrow> scalar_value (unat u)"
  using unat_unit_less[of u] unfolding scalar_value_def surrogate_unat by linarith

lemma scalar_value_pair:
  "is_high_surrogate u \<Longrightarrow> is_low_surrogate v \<Longrightarrow>
   scalar_value (0x10000 + (unat u - 0xD800) * 0x400 + (unat v - 0xDC00))"
  unfolding scalar_value_def surrogate_unat by linarith

lemma scalar_value_replacement: "scalar_value 0xFFFD"
  by (simp add: scalar_value_def)

lemma to_scalar_values_valid: "c \<in> set (to_scalar_values s) \<Longrightarrow> scalar_value c"
proof (induction s arbitrary: c rule: to_scalar_values.induct)
  case 1
  then show ?case by simp
next
  case (2 u)
  then show ?case
    by (cases "is_high_surrogate u \<or> is_low_surrogate u")
      (auto simp: scalar_value_unat scalar_value_replacement)
next
  case (3 u v rest)
  show ?case
  proof (cases "is_high_surrogate u")
    case True
    then show ?thesis using 3
      by (cases "is_low_surrogate v") (auto simp: scalar_value_pair scalar_value_replacement)
  next
    case False
    then show ?thesis using 3
      by (cases "is_low_surrogate u") (auto simp: scalar_value_unat scalar_value_replacement)
  qed
qed

lemma TextDecoder_TextEncoder:
  "TextDecoder_decode (TextEncoder_encode s)
   = concat (map utf16_units (strip_bom (to_scalar_values s)))"
  by (simp add: TextDecoder_decode_def TextEncoder_encode_def utf8_decode_encode
      to_scalar_values_valid)

lemma utf16_units_unat: "utf16_units (unat u) = [u]"
  using unat_unit_less[of u] by (simp add: utf16_units_def)

lemma utf16_units_pair:
  assumes "is_high_surrogate u" "is_low_surrogate v"
  shows "utf16_units (0x10000 + (unat u - 0xD800) * 0x400 + (unat v - 0xDC00)) = [u, v]"
proof -
  define a b where "a = unat u - 0xD800" and "b = unat v - 0xDC00"
  have ab: "a < 0x400" "b < 0x400" "unat u = 0xD800 + a" "unat v = 0xDC00 + b"
    using assms unfolding a_def b_def surrogate_unat by linarith+
  have "(a * 0x400 + b) div 0x400 = a" "(a * 0x400 + b) mod 0x400 = b"
    using ab by simp_all
  then have "utf16_units (0x10000 + a * 0x400 + b)
             = [of_nat (unat u), of_nat (unat v)]"
    using ab by (simp add: utf16_units_def add.assoc del: of_nat_unat of_nat_add)
  then show ?thesis
    by (simp add: a_def b_def)
qed

lemma utf16_of_scalar_values:
  "well_formed_utf16 s \<Longrightarrow> concat (map utf16_units (to_scalar_values s)) = s"
  by (induction s rule: to_scalar_values.induct)
    (simp_all add: utf16_units_unat utf16_units_pair)

lemma unat_bom: "unat (u :: 16 word) = 0xFEFF \<longleftrightarrow> u = 0xFEFF"
  by (simp add: word_unat_eq_iff)

lemma strip_bom_to_scalar_values:
  assumes "well_formed_utf16 s" "\<not> starts_with_bom s"
  shows "strip_bom (to_scalar_values s) = to_scalar_values s"
proof (cases s rule: to_scalar_values.cases)
  case 1
  then show ?thesis by simp
next
  case (2 u)
  then show ?thesis
    using assms by (simp add: starts_with_bom_def unat_bom)
next
  case (3 u v rest)
  show ?thesis
  proof (cases "is_high_surrogate u")
    case True
    then show ?thesis
      using assms 3 by simp
  next
    case False
    then show ?thesis
      using assms 3 by (simp add: starts_with_bom_def unat_bom)
  qed
qed

lemma TextDecoder_TextEncoder_id:
  "well_formed_utf16 s \<Longrightarrow> \<not> starts_with_bom s \<Longrightarrow>
   TextDecoder_decode (TextEncoder_encode s) = s"
  by (simp add: TextDecoder_TextEncoder strip_bom_to_scalar_values utf16_of_scalar_values)

section \<open>Properties of the reader\<close>

lemma uint32_of_uint32_bytes: "uint32_of_bytes (uint32_bytes w) = w"
proof (rule bit_eqI)
  fix n
  assume "possible_bit TYPE(32 word) n"
  then have n: "n < 32" by (simp add: possible_bit_word)
  consider "n < 8" | "8 \<le> n" "n < 16" | "16 \<le> n" "n < 24" | "24 \<le> n" "n < 32"
    using n by linarith
  then show "bit (uint32_of_bytes (uint32_bytes w)) n = bit w n"
    by cases (auto simp add: uint32_of_bytes_def uint32_bytes_def bit_simps)
qed

lemma length_uint32_bytes [simp]: "length (uint32_bytes w) = 4"
  by (simp add: uint32_bytes_def)

lemma unat_length_word:
  "n < 2 ^ 32 \<Longrightarrow> unat (of_nat n :: 32 word) = n"
  by (simp add: unsigned_of_nat take_bit_nat_eq_self)

lemma length_chunk_bytes:
  "well_formed_chunk c \<Longrightarrow> length (chunk_bytes c) = 12 + length (chunk_data c)"
  by (simp add: chunk_bytes_def well_formed_chunk_def)

lemma getUint32_chunk:
  assumes "well_formed_chunk c"
  shows "getUint32 (pre @ chunk_bytes c @ rest) (length pre) = Inr (length (chunk_data c))"
proof -
  have "take 4 (drop (length pre) (pre @ chunk_bytes c @ rest))
        = uint32_bytes (of_nat (length (chunk_data c)))"
    by (simp add: chunk_bytes_def)
  moreover have "length pre + 4 \<le> length (pre @ chunk_bytes c @ rest)"
    using assms by (simp add: length_chunk_bytes)
  ultimately show ?thesis
    using assms
    by (simp add: getUint32_def uint32_of_uint32_bytes unat_length_word well_formed_chunk_def)
qed

lemma type_view_chunk:
  assumes "well_formed_chunk c"
  shows "Uint8Array_view (pre @ chunk_bytes c @ rest) (length pre + 4) 4 = Inr (chunk_type c)"
  using assms
  by (simp add: Uint8Array_view_def chunk_bytes_def well_formed_chunk_def)

lemma data_view_chunk:
  assumes "well_formed_chunk c"
  shows "Uint8Array_view (pre @ chunk_bytes c @ rest) (length pre + 8) (length (chunk_data c))
         = Inr (chunk_data c)"
  using assms
  by (simp add: Uint8Array_view_def chunk_bytes_def well_formed_chunk_def)

lemma extract_loop_chunk:
  assumes "well_formed_chunk c"
  shows "extract_loop (pre @ chunk_bytes c @ rest) (length pre)
         = (case parameters_text c of
              Some text \<Rightarrow> Inr (Some text)
            | None \<Rightarrow> extract_loop (pre @ chunk_bytes c @ rest) (length (pre @ chunk_bytes c)))"
proof -
  have lt: "length pre < length (pre @ chunk_bytes c @ rest)"
    using assms by (simp add: length_chunk_bytes)
  have nxt: "length pre + (12 + length (chunk_data c)) = length (pre @ chunk_bytes c)"
    using assms by (simp add: length_chunk_bytes)
  show ?thesis
    by (subst extract_loop.simps)
      (simp add: lt getUint32_chunk[OF assms] type_view_chunk[OF assms]
        data_view_chunk[OF assms] nxt parameters_text_def text_entry_def Let_def
        del: length_append)
qed

lemma extract_loop_chunks:
  assumes "\<forall>c \<in> set cs. well_formed_chunk c"
  shows "extract_loop (pre @ concat (map chunk_bytes cs) @ rest) (length pre)
         = (case first_parameters cs of
              Some text \<Rightarrow> Inr (Some text)
            | None \<Rightarrow> extract_loop (pre @ concat (map chunk_bytes cs) @ rest)
                        (length (pre @ concat (map chunk_bytes cs))))"
  using assms
proof (induction cs arbitrary: pre)
  case Nil
  then show ?case by simp
next
  case (Cons c cs)
  have wf: "well_formed_chunk c" using Cons.prems by simp
  have ih: "extract_loop ((pre @ chunk_bytes c) @ concat (map chunk_bytes cs) @ rest)
              (length (pre @ chunk_bytes c))
            = (case first_parameters cs of
                 Some text \<Rightarrow> Inr (Some text)
               | None \<Rightarrow> extract_loop ((pre @ chunk_bytes c) @ concat (map chunk_bytes cs) @ rest)
                           (length ((pre @ chunk_bytes c) @ concat (map chunk_bytes cs))))"
    using Cons.prems by (intro Cons.IH) simp
  show ?case
    using extract_loop_chunk[OF wf, of pre "concat (map chunk_bytes cs) @ rest"] ih
    by (simp split: option.splits)
qed

lemma extract_loop_end: "extract_loop buffer (length buffer) = Inr None"
  by (subst extract_loop.simps) simp

lemma extractPngMetadata_signature:
  "extractPngMetadata (png_signature @ body)
   = (case extract_loop (png_signature @ body) 8 of
        Inl e \<Rightarrow> Inl e
      | Inr parameters \<Rightarrow> Inr (png_result parameters))"
  by (simp add: extractPngMetadata_def getUint32_def png_signature_def uint32_of_bytes_def)

lemma length_png_signature: "length png_signature = 8"
  by (simp add: png_signature_def)

lemma has_png_signature_split:
  "has_png_signature file \<Longrightarrow> file = png_signature @ drop 8 file"
  unfolding has_png_signature_def by (metis append_take_drop_id)

lemma has_png_signature_length: "has_png_signature file \<Longrightarrow> 8 \<le> length file"
proof -
  assume "has_png_signature file"
  then have "length (take 8 file) = 8"
    by (simp only: has_png_signature_def length_png_signature)
  then show ?thesis by simp
qed

lemma has_png_signature_png_file: "has_png_signature (png_file cs)"
  by (simp add: has_png_signature_def png_file_def length_png_signature)

lemma decode_tEXt: "TextDecoder_decode (ascii ''tEXt'') = js_lit ''tEXt''"
  by (simp add: TextDecoder_decode_def ascii_def js_lit_def utf8_lead_byte_def utf16_units_def)

lemma decode_parameters: "TextDecoder_decode (ascii ''parameters'') = js_lit ''parameters''"
  by (simp add: TextDecoder_decode_def ascii_def js_lit_def utf8_lead_byte_def utf16_units_def)

lemma find_null_parameters: "find_null (ascii ''parameters'' @ 0 # t) 0 = 10"
  by (simp add: ascii_def)

lemma first_parameters_map_filter:
  "first_parameters cs
   = (case List.map_filter parameters_text cs of [] \<Rightarrow> None | text # _ \<Rightarrow> Some text)"
  by (induction cs) (simp_all add: List.map_filter_simps split: option.splits)

lemma extract_png_file:
  assumes "list_all well_formed_chunk cs"
  shows "(extractPngMetadata (png_file cs) :: error + 'x metadata option)
         = Inr (png_result (first_parameters cs))"
proof -
  have wf: "\<forall>c \<in> set cs. well_formed_chunk c"
    using assms by (simp add: list_all_iff)
  have e: "extract_loop (png_signature @ concat (map chunk_bytes cs))
             (8 + length (concat (map chunk_bytes cs))) = Inr None"
    using extract_loop_end[of "png_signature @ concat (map chunk_bytes cs)"]
    by (simp add: length_png_signature)
  show ?thesis
    using extract_loop_chunks[OF wf, of png_signature "[]"]
    by (simp add: png_file_def extractPngMetadata_signature length_png_signature e
        png_result_def split: option.splits)
qed

lemmas eval_text_entry =
  parameters_text_def text_entry_def text_chunk_def make_chunk_def ascii_def js_lit_def
  TextDecoder_decode_def utf8_lead_byte_def utf16_units_def

lemma find_null_none: "0 \<notin> set d \<Longrightarrow> find_null d i = - 1"
  by (induction d arbitrary: i) auto

lemma parameters_text_malformed:
  "0 \<notin> set (chunk_data m) \<Longrightarrow> parameters_text m = None"
  by (simp add: parameters_text_def text_entry_def find_null_none)

lemma parameters_text_unrecognized:
  "\<not> carries_recognized_keyword c \<Longrightarrow> parameters_text c = None"
  by (auto simp: carries_recognized_keyword_def parameters_text_def recognized_keywords_def
      split: option.splits)

lemma first_parameters_none:
  "list_all (\<lambda>c. parameters_text c = None) cs \<Longrightarrow> first_parameters cs = None"
  by (induction cs) simp_all

lemma first_parameters_append:
  "first_parameters (cs1 @ cs2)
   = (case first_parameters cs1 of Some text \<Rightarrow> Some text | None \<Rightarrow> first_parameters cs2)"
  by (induction cs1) (simp_all split: option.splits)

lemma uint32_bytes_of_bytes:
  "uint32_bytes (uint32_of_bytes [a, b, c, d]) = [a, b, c, d]"
  apply (simp add: uint32_bytes_def uint32_of_bytes_def)
  apply (intro conjI; rule bit_eqI)
     apply (auto simp: bit_simps dest: bit_imp_le_length)
  done

lemma getUint32_signature:
  assumes "8 \<le> length file"
  shows "has_png_signature file
         \<longleftrightarrow> getUint32 file 0 = Inr 0x89504e47 \<and> getUint32 file 4 = Inr 0x0d0a1a0a"
proof -
  obtain a b c d e f g h rest where f: "file = a # b # c # d # e # f # g # h # rest"
    using assms by (auto simp: Suc_le_length_iff eval_nat_numeral)
  have w: "(unat w = n) = (w = of_nat n)" if "n < 2 ^ 32" for w :: "32 word" and n
    using that by (metis of_nat_unat ucast_id unat_length_word)
  have i: "uint32_of_bytes [p, q, r, s] = v \<longleftrightarrow> [p, q, r, s] = uint32_bytes v" for p q r s v
    by (metis uint32_bytes_of_bytes uint32_of_uint32_bytes)
  show ?thesis
    by (simp add: f has_png_signature_def png_signature_def getUint32_def w i)
      (auto simp: uint32_bytes_def)
qed

lemma extract_rejects_broken_signature:
  assumes "8 \<le> length file" "\<not> has_png_signature file"
  shows "extractPngMetadata file = Inl NotValidPng"
  using assms getUint32_signature[OF assms(1)]
  by (auto simp: extractPngMetadata_def getUint32_def split: sum.splits)


text \<open>
  Claim C9. For every file with a valid signature and a well-formed chunk layout in which
  no chunk carries a text entry with one of the keywords \<open>parameters\<close>, \<open>prompt\<close>,
  \<open>workflow\<close>, \<open>extractPngMetadata\<close> returns \<open>null\<close>: a normal result, not an exception.
  A \<open>tEXt\<close> chunk whose data contains no zero byte is skipped without ending the scan: the
  result for the file is the result for the file without that chunk.
\<close>

theorem extract_without_recognized_keyword:
  assumes "list_all well_formed_chunk cs"
  shows "(list_all (\<lambda>c. \<not> carries_recognized_keyword c) cs
            \<longrightarrow> (extractPngMetadata (png_file cs) :: error + 'x metadata option) = Inr None)
         \<and> (\<forall>cs1 m cs2.
              cs = cs1 @ m # cs2 \<and> chunk_type m = ascii ''tEXt'' \<and> 0 \<notin> set (chunk_data m)
              \<longrightarrow> (extractPngMetadata (png_file cs) :: error + 'x metadata option)
                  = extractPngMetadata (png_file (cs1 @ cs2)))"
proof (intro conjI impI allI)
  assume "list_all (\<lambda>c. \<not> carries_recognized_keyword c) cs"
  then have "list_all (\<lambda>c. parameters_text c = None) cs"
    by (simp add: list_all_iff parameters_text_unrecognized)
  then show "(extractPngMetadata (png_file cs) :: error + 'x metadata option) = Inr None"
    using extract_png_file[OF assms, where ?'x = 'x]
    by (simp add: first_parameters_none png_result_def)
next
  fix cs1 m cs2
  assume a: "cs = cs1 @ m # cs2 \<and> chunk_type m = ascii ''tEXt'' \<and> 0 \<notin> set (chunk_data m)"
  then have wf: "list_all well_formed_chunk (cs1 @ cs2)"
    using assms by simp
  have "first_parameters cs = first_parameters (cs1 @ cs2)"
    using a by (simp add: first_parameters_append parameters_text_malformed split: option.splits)
  then show "(extractPngMetadata (png_file cs) :: error + 'x metadata option)
             = extractPngMetadata (png_file (cs1 @ cs2))"
    using extract_png_file[OF assms, where ?'x = 'x] extract_png_file[OF wf, where ?'x = 'x]
    by simp
qed

theorem extract_without_recognized_keyword_witness:
  "list_all well_formed_chunk minimal_png_chunks
   \<and> list_all (\<lambda>c. \<not> carries_recognized_keyword c) minimal_png_chunks
   \<and> (extractPngMetadata minimal_png :: error + unit metadata option) = Inr None
   \<and> list_all well_formed_chunk malformed_then_parameters
   \<and> (extractPngMetadata (png_file malformed_then_parameters) :: error + unit metadata option)
     = Inr (Some (PngMeta (js_lit ''hello'')))"
proof -
  have wf1: "list_all well_formed_chunk minimal_png_chunks"
    by (simp add: minimal_png_chunks_def well_formed_chunk_def make_chunk_def ascii_def)
  have nr: "list_all (\<lambda>c. \<not> carries_recognized_keyword c) minimal_png_chunks"
    by (simp add: minimal_png_chunks_def carries_recognized_keyword_def eval_text_entry)
  have wf2: "list_all well_formed_chunk malformed_then_parameters"
    by (simp add: malformed_then_parameters_def well_formed_chunk_def text_chunk_def
        make_chunk_def ascii_def)
  have wf3: "list_all well_formed_chunk [text_chunk (ascii ''parameters'') (ascii ''hello'')]"
    by (simp add: well_formed_chunk_def text_chunk_def make_chunk_def ascii_def)
  have m: "malformed_then_parameters
           = [] @ make_chunk (ascii ''tEXt'') (ascii ''no separator'')
               # [text_chunk (ascii ''parameters'') (ascii ''hello'')]
           \<and> chunk_type (make_chunk (ascii ''tEXt'') (ascii ''no separator'')) = ascii ''tEXt''
           \<and> 0 \<notin> set (chunk_data (make_chunk (ascii ''tEXt'') (ascii ''no separator'')))"
    by (simp add: malformed_then_parameters_def make_chunk_def ascii_def)
  have e: "(extractPngMetadata (png_file [text_chunk (ascii ''parameters'') (ascii ''hello'')])
            :: error + unit metadata option) = Inr (Some (PngMeta (js_lit ''hello'')))"
    using extract_png_file[OF wf3] by (simp add: png_result_def eval_text_entry)
  have a: "(extractPngMetadata minimal_png :: error + unit metadata option) = Inr None"
    using extract_without_recognized_keyword[OF wf1, where ?'x = unit] nr
    by (simp add: minimal_png_def)
  have b: "(extractPngMetadata (png_file malformed_then_parameters)
            :: error + unit metadata option)
           = extractPngMetadata (png_file ([] @ [text_chunk (ascii ''parameters'') (ascii ''hello'')]))"
    using extract_without_recognized_keyword[OF wf2, where ?'x = unit] m by blast
  show ?thesis
    using wf1 nr a wf2 b e by simp
qed

text \<open>
  Claim C10, amended. When the chunks before a chunk \<open>c\<close> are well formed and none of them
  carries the keyword \<open>parameters\<close>, and \<open>c\<close> is a well-formed \<open>tEXt\<close> chunk with the keyword
  \<open>parameters\<close> and the text \<open>text\<close>, then \<open>extractPngMetadata\<close> stops at \<open>c\<close>: whatever
  bytes follow \<open>c\<close> (further \<open>parameters\<close> chunks, other chunks, or bytes that are no chunks
  at all), the result is \<open>text\<close> alone when \<open>text\<close> is not empty, and \<open>null\<close> when it is the
  empty string.
\<close>

theorem extract_stops_at_first_parameters:
  assumes "list_all well_formed_chunk before"
    and "list_all (\<lambda>c. parameters_text c = None) before"
    and "well_formed_chunk c"
    and "parameters_text c = Some text"
  shows "extractPngMetadata (png_signature @ concat (map chunk_bytes before) @ chunk_bytes c @ rest)
         = Inr (if text \<noteq> [] then Some (PngMeta text) else None)"
proof -
  have wf: "\<forall>c \<in> set (before @ [c]). well_formed_chunk c"
    using assms(1,3) by (simp add: list_all_iff)
  have "first_parameters (before @ [c]) = Some text"
    using assms(2,4) by (simp add: first_parameters_append first_parameters_none)
  then show ?thesis
    using extract_loop_chunks[OF wf, of png_signature rest]
    by (simp add: extractPngMetadata_signature length_png_signature png_result_def)
qed

theorem extract_stops_at_first_parameters_witness:
  "(extractPngMetadata (png_file mixed_chunks @ [1, 2, 3]) :: error + unit metadata option)
   = Inr (Some (PngMeta (js_lit ''hello'')))"
proof -
  have wf: "list_all well_formed_chunk [text_chunk (ascii ''prompt'') (ascii ''abc'')]"
    "well_formed_chunk (text_chunk (ascii ''parameters'') (ascii ''hello''))"
    by (simp_all add: well_formed_chunk_def text_chunk_def make_chunk_def ascii_def)
  have p: "list_all (\<lambda>c. parameters_text c = None) [text_chunk (ascii ''prompt'') (ascii ''abc'')]"
    "parameters_text (text_chunk (ascii ''parameters'') (ascii ''hello'')) = Some (js_lit ''hello'')"
    by (simp_all add: eval_text_entry)
  show ?thesis
    using extract_stops_at_first_parameters[OF wf(1) p(1) wf(2) p(2),
        of "chunk_bytes (text_chunk (ascii ''parameters'') (ascii ''later'')) @ [1, 2, 3]"]
    by (simp add: png_file_def mixed_chunks_def js_lit_def)
qed

text \<open>
  Claim C10 as stated fails at a file with two \<open>parameters\<close> chunks of which the first has
  the empty text: the scan stops at the first chunk, but the result is \<open>null\<close> and not that
  chunk's text.
\<close>

theorem extract_empty_first_parameters:
  "parameters_text (hd empty_first_chunks) = Some []
   \<and> (extractPngMetadata (png_file empty_first_chunks) :: error + unit metadata option) = Inr None"
proof -
  have wf: "list_all well_formed_chunk empty_first_chunks"
    by (simp add: empty_first_chunks_def well_formed_chunk_def text_chunk_def make_chunk_def
        ascii_def)
  have p: "parameters_text (hd empty_first_chunks) = Some []"
    by (simp add: empty_first_chunks_def eval_text_entry)
  then have "first_parameters empty_first_chunks = Some []"
    by (simp add: empty_first_chunks_def)
  then show ?thesis
    using extract_png_file[OF wf] p by (simp add: png_result_def)
qed

section \<open>Properties of the writer\<close>

lemma encode_parameters: "TextEncoder_encode (js_lit ''parameters'') = ascii ''parameters''"
  by (simp add: TextEncoder_encode_def ascii_def js_lit_def utf8_encode_scalar_def
      is_high_surrogate_def is_low_surrogate_def)

lemma js_lit_tEXt: "js_lit ''tEXt'' = [0x74, 0x45, 0x58, 0x74]"
  by (simp add: js_lit_def)

lemma ascii_tEXt: "ascii ''tEXt'' = [0x74, 0x45, 0x58, 0x74]"
  by (simp add: ascii_def)

lemma list_update_replicate_same: "(replicate n x)[i := x] = replicate n x"
  by (induction n arbitrary: i) (simp_all split: nat.splits)

lemma inject_result:
  assumes "8 \<le> length file"
  shows "\<exists>h'. injectPngMetadata file text h
          = Inr (take 8 file @ chunk_bytes (parameters_chunk text) @ drop 8 file, h')
        \<and> (\<forall>r < next_ref h. cells h' r = cells h r)
        \<and> cells h' (next_ref h) = file"
proof -
  define K where "K = TextEncoder_encode (js_lit ''parameters'')"
  define T where "T = TextEncoder_encode text"
  show ?thesis
  using assms
  by (simp add: injectPngMetadata_def js_bind_def new_buffer_def Let_def setUint32_def modify_buffer_def set_bytes_def  js_lit_tEXt ascii_tEXt js_return_def setUint8_def typed_array_set_def index_assign_def read_buffer_def slice_def slice_from_def
    parameters_chunk_def text_chunk_def make_chunk_def chunk_bytes_def drop_Cons' take_Cons' list_update_append nth_append list_update_replicate_same flip: K_def T_def) auto
qed

lemma inject_short:
  assumes "length file < 8"
  shows "injectPngMetadata file text h = Inl RangeError"
proof -
  define K where "K = TextEncoder_encode (js_lit ''parameters'')"
  define T where "T = TextEncoder_encode text"
  show ?thesis
  using assms
  by (simp add: injectPngMetadata_def js_bind_def new_buffer_def Let_def setUint32_def modify_buffer_def set_bytes_def  js_lit_tEXt ascii_tEXt js_return_def setUint8_def typed_array_set_def index_assign_def read_buffer_def slice_def slice_from_def
    parameters_chunk_def text_chunk_def make_chunk_def chunk_bytes_def drop_Cons' take_Cons' list_update_append nth_append list_update_replicate_same flip: K_def T_def)
qed

lemma run_js_inject:
  assumes "8 \<le> length file"
  shows "run_js (injectPngMetadata file text)
         = Inr (take 8 file @ chunk_bytes (parameters_chunk text) @ drop 8 file)"
proof -
  obtain h' where "injectPngMetadata file text empty_heap
      = Inr (take 8 file @ chunk_bytes (parameters_chunk text) @ drop 8 file, h')"
    using inject_result[OF assms, of "text" empty_heap] by blast
  then show ?thesis by (simp add: run_js_def)
qed

lemma run_js_inject_short:
  "length file < 8 \<Longrightarrow> run_js (injectPngMetadata file text) = Inl RangeError"
  by (simp add: run_js_def inject_short)

lemma length_chunk_bytes_parameters:
  "length (chunk_bytes (parameters_chunk text)) = 12 + 10 + 1 + length (TextEncoder_encode text)"
  by (simp add: chunk_bytes_def parameters_chunk_def text_chunk_def make_chunk_def
      encode_parameters ascii_def)

lemma length_encode_parameters: "length (TextEncoder_encode (js_lit ''parameters'')) = 10"
  by (simp add: encode_parameters ascii_def)

lemma spec_header_end_minimal_png: "spec_header_end minimal_png = 33"
  by (simp add: spec_header_end_def minimal_png_def minimal_png_chunks_def png_file_def
      png_signature_def chunk_bytes_def make_chunk_def uint32_bytes_def uint32_of_bytes_def)

text \<open>
  Claim C1, evaluated at the minimal PNG and the text \<open>a\<close>. The header chunk of the
  minimal PNG ends at offset 33. \<open>injectPngMetadata\<close> of \<open>src/App.jsx\<close> reads no chunk length
  and computes no end of the header chunk: its output has the new chunk at offset 8, in
  front of the header chunk, and differs from the output the claim describes (at index 11,
  the low byte of the first chunk length). The second snapshot computes \<open>ihdrEndIndex\<close>
  and produces the described output, at this input
  (\<open>second_snapshot_inject_minimal_png\<close>) and for every file that begins with the
  signature and contains its header chunk (\<open>injectPngMetadata2_result\<close>).
\<close>

theorem inject_not_after_header:
  "spec_header_end minimal_png = 33
   \<and> run_js (injectPngMetadata minimal_png (js_lit ''a''))
     = Inr (png_file (parameters_chunk (js_lit ''a'') # minimal_png_chunks))
   \<and> run_js (injectPngMetadata minimal_png (js_lit ''a''))
     \<noteq> Inr (spec_inject_output minimal_png [chunk_bytes (parameters_chunk (js_lit ''a''))])"
proof -
  have l: "8 \<le> length minimal_png"
    by (simp add: minimal_png_def png_file_def length_png_signature)
  have r: "run_js (injectPngMetadata minimal_png (js_lit ''a''))
     = Inr (png_file (parameters_chunk (js_lit ''a'') # minimal_png_chunks))"
    using run_js_inject[OF l, of "js_lit ''a''"]
    by (simp add: minimal_png_def png_file_def length_png_signature)
  have "png_file (parameters_chunk (js_lit ''a'') # minimal_png_chunks) ! 11
        \<noteq> spec_inject_output minimal_png [chunk_bytes (parameters_chunk (js_lit ''a''))] ! 11"
    by (simp add: spec_inject_output_def spec_header_end_minimal_png)
      (simp add: minimal_png_def minimal_png_chunks_def png_file_def png_signature_def
        chunk_bytes_def make_chunk_def uint32_bytes_def parameters_chunk_def text_chunk_def
        encode_parameters ascii_def js_lit_def TextEncoder_encode_def utf8_encode_scalar_def
        is_high_surrogate_def is_low_surrogate_def)
  then have "png_file (parameters_chunk (js_lit ''a'') # minimal_png_chunks)
        \<noteq> spec_inject_output minimal_png [chunk_bytes (parameters_chunk (js_lit ''a''))]"
    by metis
  then show ?thesis
    using r by (simp add: spec_header_end_minimal_png)
qed

text \<open>
  Claim C7. For every file with a valid signature, every text and every store,
  \<open>injectPngMetadata\<close> returns an output such that
  \<^item> the length of the output is the length of the file plus the length of the new chunk
    buffer, \<open>12 + len(keyword) + 1 + len(text)\<close>, with the lengths of the UTF-8 encodings
    of the keyword \<open>parameters\<close> and of the text;
  \<^item> no buffer that existed before the call is changed, and the buffer that received the
    file's bytes (\<open>originalBuffer\<close>, the first buffer allocated by the call) still holds
    them after the call: all writes go to \<open>chunkBuffer\<close> and \<open>finalBuffer\<close>;
  \<^item> the tail of the output behind the inserted bytes is the tail of the file, byte for
    byte and hence in length, wherever the tail is taken to begin (at the end of the
    signature, or at the end of the header chunk).
\<close>

theorem inject_length_and_frame:
  assumes "has_png_signature file"
  shows "\<exists>output h'.
           injectPngMetadata file text h = Inr (output, h')
         \<and> length output
             = length file
               + (12 + length (TextEncoder_encode (js_lit ''parameters'')) + 1
                  + length (TextEncoder_encode text))
         \<and> (\<forall>r < next_ref h. cells h' r = cells h r)
         \<and> cells h' (next_ref h) = file
         \<and> (\<forall>e \<ge> 8. drop (e + length (chunk_bytes (parameters_chunk text))) output = drop e file
                    \<and> length (drop (e + length (chunk_bytes (parameters_chunk text))) output)
                      = length (drop e file))"
proof -
  have l: "8 \<le> length file"
    using assms by (rule has_png_signature_length)
  define res where "res = take 8 file @ chunk_bytes (parameters_chunk text) @ drop 8 file"
  obtain h' where h': "injectPngMetadata file text h = Inr (res, h')"
    "\<forall>r < next_ref h. cells h' r = cells h r" "cells h' (next_ref h) = file"
    using inject_result[OF l, of "text" h] unfolding res_def by blast
  have len: "length res
             = length file
               + (12 + length (TextEncoder_encode (js_lit ''parameters'')) + 1
                  + length (TextEncoder_encode text))"
    using l by (simp add: res_def length_chunk_bytes_parameters length_encode_parameters)
  have tail: "drop (e + length (chunk_bytes (parameters_chunk text))) res = drop e file"
    if "8 \<le> e" for e
  proof -
    have "e + length (chunk_bytes (parameters_chunk text)) - 8
            - length (chunk_bytes (parameters_chunk text)) = e - 8"
      using that by simp
    moreover have "drop (e - 8) (drop 8 file) = drop e file"
      using that by simp
    ultimately show ?thesis
      using l that by (simp add: res_def)
  qed
  show ?thesis
    using h' len tail by (intro exI[of _ res] exI[of _ h']) simp
qed

theorem inject_length_and_frame_witness:
  "has_png_signature minimal_png
   \<and> (\<exists>output h'. injectPngMetadata minimal_png (js_lit ''a'') empty_heap = Inr (output, h')
        \<and> length output = length minimal_png + 24
        \<and> cells h' 0 = minimal_png)"
proof -
  have s: "has_png_signature minimal_png"
    by (simp add: minimal_png_def has_png_signature_png_file)
  have t: "length (TextEncoder_encode (js_lit ''a'')) = 1"
    by (simp add: js_lit_def TextEncoder_encode_def utf8_encode_scalar_def
        is_high_surrogate_def is_low_surrogate_def)
  show ?thesis
    using inject_length_and_frame[OF s, of "js_lit ''a''" empty_heap] s
    by (simp add: length_encode_parameters t) (auto simp: empty_heap_def)
qed

text \<open>
  Claim C3, evaluated at an input with a broken signature (the minimal PNG with its first
  byte set to zero). \<open>extractPngMetadata\<close> throws its error, as it does on every file of at
  least eight bytes without the signature (\<open>extract_rejects_broken_signature\<close>).
  \<open>injectPngMetadata\<close> contains no signature check: it returns an output, the input with
  the new chunk inserted at offset 8.
\<close>

theorem inject_accepts_broken_signature:
  "\<not> has_png_signature corrupted_png
   \<and> (extractPngMetadata corrupted_png :: error + unit metadata option) = Inl NotValidPng
   \<and> run_js (injectPngMetadata corrupted_png (js_lit ''a''))
     = Inr (take 8 corrupted_png @ chunk_bytes (parameters_chunk (js_lit ''a''))
            @ drop 8 corrupted_png)"
proof -
  have c: "corrupted_png = [0x00, 0x50, 0x4E, 0x47, 0x0D, 0x0A, 0x1A, 0x0A]
             @ concat (map chunk_bytes minimal_png_chunks)"
    by (simp add: corrupted_png_def minimal_png_def png_file_def png_signature_def)
  have n: "\<not> has_png_signature corrupted_png"
    by (simp add: has_png_signature_def c png_signature_def)
  have e: "(extractPngMetadata corrupted_png :: error + unit metadata option) = Inl NotValidPng"
    by (simp add: extractPngMetadata_def getUint32_def c uint32_of_bytes_def)
  have l: "8 \<le> length corrupted_png"
    by (simp add: c)
  show ?thesis
    using n e run_js_inject[OF l] by simp
qed

section \<open>Injecting and extracting again\<close>

lemma parameters_text_parameters_chunk:
  "parameters_text (parameters_chunk text) = Some (TextDecoder_decode (TextEncoder_encode text))"
  by (simp add: parameters_text_def text_entry_def parameters_chunk_def text_chunk_def
      make_chunk_def encode_parameters decode_tEXt find_null_parameters)
    (simp add: ascii_def decode_parameters[unfolded ascii_def, simplified])

lemma well_formed_parameters_chunk:
  "11 + length (TextEncoder_encode text) < 2 ^ 32 \<Longrightarrow> well_formed_chunk (parameters_chunk text)"
  by (simp add: well_formed_chunk_def parameters_chunk_def text_chunk_def make_chunk_def
      encode_parameters ascii_def)

lemma extract_first_chunk:
  assumes "well_formed_chunk c" "parameters_text c = Some text"
  shows "extractPngMetadata (png_signature @ chunk_bytes c @ rest) = Inr (png_result (Some text))"
  using extract_loop_chunk[OF assms(1), of png_signature rest] assms(2)
  by (simp add: extractPngMetadata_signature length_png_signature)

lemma inject_then_extract_eq:
  assumes "has_png_signature file" "11 + length (TextEncoder_encode text) < 2 ^ 32"
  shows "inject_then_extract file text
         = Inr (png_result (Some (TextDecoder_decode (TextEncoder_encode text))))"
proof -
  have "run_js (injectPngMetadata file text)
        = Inr (png_signature @ chunk_bytes (parameters_chunk text) @ drop 8 file)"
    using run_js_inject[OF has_png_signature_length[OF assms(1)]] assms(1)
    by (simp add: has_png_signature_def)
  then show ?thesis
    using extract_first_chunk[OF well_formed_parameters_chunk[OF assms(2)]
        parameters_text_parameters_chunk]
    by (simp add: inject_then_extract_def)
qed

text \<open>
  Claim C5, amended. For every file that begins with the PNG signature (in particular
  every minimal valid PNG) and every text that is not empty, is well-formed UTF-16, does
  not begin with \<open>U+FEFF\<close> and whose chunk length fits into 32 bits, injecting the text and
  extracting from the output returns exactly \<open>{ type: 'png', data: text }\<close>, the one
  entry with the keyword \<open>parameters\<close>.
\<close>

theorem inject_extract_roundtrip:
  assumes "has_png_signature file"
    and "text \<noteq> []"
    and "well_formed_utf16 text"
    and "\<not> starts_with_bom text"
    and "11 + length (TextEncoder_encode text) < 2 ^ 32"
  shows "inject_then_extract file text = Inr (Some (PngMeta text))"
  using inject_then_extract_eq[OF assms(1) assms(5)] assms(2)
  by (simp add: TextDecoder_TextEncoder_id[OF assms(3) assms(4)] png_result_def)

theorem inject_extract_roundtrip_witness:
  "has_png_signature minimal_png
   \<and> well_formed_utf16 (js_lit ''best quality, 1girl'')
   \<and> (inject_then_extract minimal_png (js_lit ''best quality, 1girl'')
        :: error + unit metadata option)
     = Inr (Some (PngMeta (js_lit ''best quality, 1girl'')))"
proof -
  have s: "has_png_signature minimal_png"
    by (simp add: minimal_png_def has_png_signature_png_file)
  have w: "well_formed_utf16 (js_lit ''best quality, 1girl'')"
    by (simp add: js_lit_def is_high_surrogate_def is_low_surrogate_def)
  have n: "js_lit ''best quality, 1girl'' \<noteq> []"
    by (simp add: js_lit_def)
  have b: "\<not> starts_with_bom (js_lit ''best quality, 1girl'')"
    by (simp add: js_lit_def starts_with_bom_def)
  have l: "11 + length (TextEncoder_encode (js_lit ''best quality, 1girl'')) < 2 ^ 32"
    by (simp add: js_lit_def TextEncoder_encode_def utf8_encode_scalar_def
        is_high_surrogate_def is_low_surrogate_def)
  show ?thesis
    using inject_extract_roundtrip[OF s n w b l] s w by simp
qed

text \<open>
  Claim C5 as stated fails at the empty text: injecting it into the minimal PNG and
  extracting from the output returns \<open>null\<close>, because the empty string is falsy in the
  \<open>return\<close> statement of \<open>extractPngMetadata\<close>.
\<close>

theorem inject_empty_text_extracts_null:
  "(inject_then_extract minimal_png [] :: error + unit metadata option) = Inr None"
proof -
  have s: "has_png_signature minimal_png"
    by (simp add: minimal_png_def has_png_signature_png_file)
  have l: "11 + length (TextEncoder_encode []) < 2 ^ 32"
    by (simp add: TextEncoder_encode_def)
  show ?thesis
    using inject_then_extract_eq[OF s l]
    by (simp add: TextEncoder_encode_def TextDecoder_decode_def png_result_def)
qed

section \<open>Properties of the handlers\<close>

lemma mime_types_distinct:
  "js_lit ''image/png'' \<noteq> js_lit ''image/jpeg''"
  "js_lit ''image/jpeg'' \<noteq> js_lit ''image/png''"
  "js_lit ''image/webp'' \<noteq> js_lit ''image/png''"
  "js_lit ''image/webp'' \<noteq> js_lit ''image/jpeg''"
  by (simp_all add: js_lit_def)

text \<open>
  Claim C6. When metadata is cached and the target is declared \<open>image/png\<close> while the
  cached object is not of type \<open>'png'\<close>, or the target is declared \<open>image/jpeg\<close> while the
  cached object is not of type \<open>'jpg'\<close>, \<open>handleInject\<close> ends with an error status that
  carries the format-mismatch message for the target's type and changes nothing else:
  no image is produced (\<open>processedImage\<close> is unchanged), the cache is unchanged, and the
  outcome does not depend on the bytes of the target, which are never read.
\<close>

theorem inject_format_mismatch:
  assumes "cachedMetadata st = Some cached"
    and "(file_type file = js_lit ''image/png'' \<and> metadata_type cached \<noteq> js_lit ''png'')
         \<or> (file_type file = js_lit ''image/jpeg'' \<and> metadata_type cached \<noteq> js_lit ''jpg'')"
  shows "handleInject window_piexif st file
           = st\<lparr>status := (StatusError,
                 if file_type file = js_lit ''image/png'' then MsgMismatchPng else MsgMismatchJpg)\<rparr>
         \<and> processedImage (handleInject window_piexif st file) = processedImage st
         \<and> cachedMetadata (handleInject window_piexif st file) = cachedMetadata st
         \<and> handleInject window_piexif st (file\<lparr>file_bytes := other_bytes\<rparr>)
           = handleInject window_piexif st file"
  using assms by (auto simp: handleInject_def Let_def mime_types_distinct)

theorem inject_format_mismatch_witness:
  "cachedMetadata cached_png_state = Some (PngMeta (js_lit ''best quality, 1girl''))
   \<and> file_type jpeg_target = js_lit ''image/jpeg''
   \<and> metadata_type (PngMeta (js_lit ''best quality, 1girl'') :: unit metadata) \<noteq> js_lit ''jpg''
   \<and> status (handleInject None cached_png_state jpeg_target) = (StatusError, MsgMismatchJpg)
   \<and> processedImage (handleInject None cached_png_state jpeg_target) = None"
proof -
  have c: "cachedMetadata cached_png_state = Some (PngMeta (js_lit ''best quality, 1girl''))"
    by (simp add: cached_png_state_def)
  have t: "file_type jpeg_target = js_lit ''image/jpeg''"
    by (simp add: jpeg_target_def)
  have m: "metadata_type (PngMeta (js_lit ''best quality, 1girl'') :: unit metadata) \<noteq> js_lit ''jpg''"
    by (simp add: metadata_type_def js_lit_def)
  have "(file_type jpeg_target = js_lit ''image/png''
          \<and> metadata_type (PngMeta (js_lit ''best quality, 1girl'') :: unit metadata) \<noteq> js_lit ''png'')
        \<or> (file_type jpeg_target = js_lit ''image/jpeg''
          \<and> metadata_type (PngMeta (js_lit ''best quality, 1girl'') :: unit metadata) \<noteq> js_lit ''jpg'')"
    using t m by simp
  from inject_format_mismatch[OF c this, of None]
  have "handleInject None cached_png_state jpeg_target
        = cached_png_state\<lparr>status := (StatusError,
            if file_type jpeg_target = js_lit ''image/png'' then MsgMismatchPng else MsgMismatchJpg)\<rparr>"
    by blast
  then show ?thesis
    using c t m by (simp add: mime_types_distinct) (simp add: cached_png_state_def)
qed

text \<open>
  Claim C8, evaluated at a target declared \<open>image/webp\<close> while PNG metadata is cached.
  \<open>handleExtract\<close> rejects the file with its WebP message. \<open>handleInject\<close> has no branch
  for the type: it sets the status to loading, calls no codec, and returns without any
  further signal; the status stays loading.
\<close>

theorem inject_webp_gives_no_signal:
  "status (handleExtract None cached_png_state webp_target) = (StatusError, MsgWebpWarning)
   \<and> handleInject None cached_png_state webp_target
     = cached_png_state\<lparr>status := (StatusLoading, MsgInjecting)\<rparr>"
  by (simp add: handleExtract_def handleInject_def Let_def cached_png_state_def webp_target_def
      mime_types_distinct)

section \<open>Properties of the second snapshot\<close>

text \<open>
  The second snapshot does what claims C1 and C2 say, and its \<open>injectPngMetadata\<close>
  rejects a file without the signature, as \<open>extractPngMetadata\<close> does in both snapshots.
\<close>

lemma createPngTextChunk_bytes:
  "createPngTextChunk keyword text = Inr (chunk_bytes (entry_chunk (keyword, text)))"
proof -
  define K where "K = TextEncoder_encode keyword"
  define T where "T = TextEncoder_encode text"
  show ?thesis
    by (simp add: createPngTextChunk_def then_do_def Let_def set_bytes_def js_lit_tEXt ascii_tEXt
        slice_def entry_chunk_def text_chunk_def make_chunk_def chunk_bytes_def drop_Cons'
        take_Cons' list_update_append nth_append list_update_replicate_same flip: K_def T_def)
qed

lemma new_chunk_loop_result:
  "new_chunk_loop chunks newChunkBuffers n
   = Inr (newChunkBuffers @ map (\<lambda>entry. chunk_bytes (entry_chunk entry)) chunks,
          n + length (concat (map (\<lambda>entry. chunk_bytes (entry_chunk entry)) chunks)))"
proof (induction chunks arbitrary: newChunkBuffers n)
  case Nil
  then show ?case by simp
next
  case (Cons entry chunks)
  obtain keyword t where e: "entry = (keyword, t)" by (cases entry)
  show ?case
    by (simp add: e createPngTextChunk_bytes then_do_def Cons.IH)
qed

lemma insert_loop_result:
  assumes "length pre = offset" "length mid = length (concat bufs)"
  shows "insert_loop (pre @ mid @ post) bufs offset
         = Inr (pre @ concat bufs @ post, offset + length (concat bufs))"
  using assms
proof (induction bufs arbitrary: pre mid offset)
  case Nil
  then show ?case by simp
next
  case (Cons buf bufs)
  define mid' where "mid' = drop (length buf) mid"
  have m: "mid = take (length buf) mid @ mid'" "length (take (length buf) mid) = length buf"
    "length mid' = length (concat bufs)"
    using Cons.prems(2) by (simp_all add: mid'_def)
  have s: "set_bytes buf offset (pre @ mid @ post) = Inr ((pre @ buf) @ mid' @ post)"
    using Cons.prems(1) m(2) Cons.prems(2) by (subst m(1)) (simp add: set_bytes_def mid'_def)
  have "insert_loop ((pre @ buf) @ mid' @ post) bufs (offset + length buf)
        = Inr ((pre @ buf) @ concat bufs @ post, offset + length buf + length (concat bufs))"
    using Cons.prems(1) m(3) by (intro Cons.IH) simp_all
  then show ?case
    by (simp add: s then_do_def)
qed

lemma spec_header_end_getUint32:
  "12 \<le> length file \<Longrightarrow> getUint32 file 8 = Inr (spec_header_end file - 20)"
  by (simp add: getUint32_def spec_header_end_def)

lemma injectPngMetadata2_result:
  assumes "has_png_signature file" "spec_header_end file \<le> length file"
  shows "injectPngMetadata2 file chunks
         = Inr (spec_inject_output file (map (\<lambda>entry. chunk_bytes (entry_chunk entry)) chunks))"
proof -
  define e where "e = spec_header_end file"
  define new where "new = concat (map (\<lambda>entry. chunk_bytes (entry_chunk entry)) chunks)"
  have e20: "20 \<le> e" by (simp add: e_def spec_header_end_def)
  have len: "e \<le> length file" using assms(2) by (simp add: e_def)
  have l8: "8 \<le> length file" using e20 len by simp
  have sig: "getUint32 file 0 = Inr 0x89504e47" "getUint32 file 4 = Inr 0x0d0a1a0a"
    using getUint32_signature[OF l8] assms(1) by simp_all
  have g8: "getUint32 file 8 = Inr (e - 20)"
    using e20 len by (simp add: spec_header_end_getUint32 e_def)
  have idx: "20 + (e - 20) = e" using e20 by simp
  have a: "set_bytes (slice file 0 e) 0 (replicate (length file + length new) 0)
           = Inr (take e file @ replicate (length new) 0 @ replicate (length file - e) 0)"
    using len by (simp add: set_bytes_def slice_def replicate_add[symmetric])
  have b: "insert_loop (take e file @ replicate (length new) 0 @ replicate (length file - e) 0)
             (map (\<lambda>entry. chunk_bytes (entry_chunk entry)) chunks) e
           = Inr (take e file @ new @ replicate (length file - e) 0, e + length new)"
    using len insert_loop_result[of "take e file" e "replicate (length new) 0"
        "map (\<lambda>entry. chunk_bytes (entry_chunk entry)) chunks" "replicate (length file - e) 0"]
    by (simp add: new_def)
  have c: "set_bytes (slice_from file e) (e + length new)
             (take e file @ new @ replicate (length file - e) 0)
           = Inr (take e file @ new @ drop e file)"
    using len by (simp add: set_bytes_def slice_from_def)
  show ?thesis
    unfolding injectPngMetadata2_def
    by (simp add: then_do_def sig g8 idx Let_def new_chunk_loop_result a b c
        spec_inject_output_def flip: new_def e_def)
qed

lemma injectPngMetadata2_rejects_broken_signature:
  assumes "8 \<le> length file" "\<not> has_png_signature file"
  shows "injectPngMetadata2 file chunks = Inl NotValidPng"
  using assms getUint32_signature[OF assms(1)]
  by (auto simp: injectPngMetadata2_def then_do_def getUint32_def split: sum.splits)

lemma spec_collected_entries_Cons:
  "spec_collected_entries (c # cs)
   = (case text_entry c of
        None \<Rightarrow> []
      | Some (keyword, t) \<Rightarrow> if keyword \<in> set recognized_keywords then [(keyword, t)] else [])
     @ spec_collected_entries cs"
  by (simp add: spec_collected_entries_def List.map_filter_simps split: option.splits)

lemma extract_loop2_chunk:
  assumes "well_formed_chunk c"
  shows "extract_loop2 (pre @ chunk_bytes c @ rest) (length pre) acc
         = extract_loop2 (pre @ chunk_bytes c @ rest) (length (pre @ chunk_bytes c))
             (acc @ spec_collected_entries [c])"
proof -
  have lt: "length pre < length (pre @ chunk_bytes c @ rest)"
    using assms by (simp add: length_chunk_bytes)
  have nxt: "length pre + (12 + length (chunk_data c)) = length (pre @ chunk_bytes c)"
    using assms by (simp add: length_chunk_bytes)
  have e: "spec_collected_entries [] = []"
    by (simp add: spec_collected_entries_def List.map_filter_simps)
  show ?thesis
    by (subst extract_loop2.simps)
      (simp add: lt getUint32_chunk[OF assms] type_view_chunk[OF assms]
        data_view_chunk[OF assms] nxt spec_collected_entries_Cons e text_entry_def Let_def
        recognized_keywords_def del: length_append)
qed

lemma extract_loop2_chunks:
  assumes "\<forall>c \<in> set cs. well_formed_chunk c"
  shows "extract_loop2 (pre @ concat (map chunk_bytes cs) @ rest) (length pre) acc
         = extract_loop2 (pre @ concat (map chunk_bytes cs) @ rest)
             (length (pre @ concat (map chunk_bytes cs))) (acc @ spec_collected_entries cs)"
  using assms
proof (induction cs arbitrary: pre acc)
  case Nil
  then show ?case
    by (simp add: spec_collected_entries_def List.map_filter_simps)
next
  case (Cons c cs)
  have wf: "well_formed_chunk c" using Cons.prems by simp
  have ih: "extract_loop2 ((pre @ chunk_bytes c) @ concat (map chunk_bytes cs) @ rest)
              (length (pre @ chunk_bytes c)) (acc @ spec_collected_entries [c])
            = extract_loop2 ((pre @ chunk_bytes c) @ concat (map chunk_bytes cs) @ rest)
                (length ((pre @ chunk_bytes c) @ concat (map chunk_bytes cs)))
                ((acc @ spec_collected_entries [c]) @ spec_collected_entries cs)"
    using Cons.prems by (intro Cons.IH) simp
  have c: "spec_collected_entries [c] @ spec_collected_entries cs = spec_collected_entries (c # cs)"
    by (simp add: spec_collected_entries_def List.map_filter_simps split: option.splits)
  show ?case
    using extract_loop2_chunk[OF wf, of pre "concat (map chunk_bytes cs) @ rest" acc] ih
    by (simp add: c)
qed

lemma extract_loop2_end: "extract_loop2 buffer (length buffer) acc = Inr acc"
  by (subst extract_loop2.simps) simp

lemma extractPngMetadata2_png_file:
  assumes "list_all well_formed_chunk cs"
  shows "extractPngMetadata2 (png_file cs)
         = Inr (if spec_collected_entries cs = [] then None else Some (spec_collected_entries cs))"
proof -
  have wf: "\<forall>c \<in> set cs. well_formed_chunk c"
    using assms by (simp add: list_all_iff)
  have s: "getUint32 (png_file cs) 0 = Inr 0x89504e47" "getUint32 (png_file cs) 4 = Inr 0x0d0a1a0a"
    by (simp_all add: png_file_def getUint32_def png_signature_def uint32_of_bytes_def)
  have e: "extract_loop2 (png_signature @ concat (map chunk_bytes cs))
             (8 + length (concat (map chunk_bytes cs))) acc = Inr acc" for acc
    using extract_loop2_end[of "png_signature @ concat (map chunk_bytes cs)"]
    by (simp add: length_png_signature)
  have "extract_loop2 (png_file cs) 8 [] = Inr (spec_collected_entries cs)"
    using extract_loop2_chunks[OF wf, of png_signature "[]" "[]"]
    by (simp add: png_file_def length_png_signature e)
  then show ?thesis
    by (simp add: extractPngMetadata2_def then_do_def s)
qed

lemma length_minimal_png: "length minimal_png = 67"
  by (simp add: minimal_png_def minimal_png_chunks_def png_file_def png_signature_def
      chunk_bytes_def make_chunk_def ascii_def)

lemma collected_multi_keyword:
  "spec_collected_entries multi_keyword_chunks
   = [(js_lit ''workflow'', js_lit ''{}''), (js_lit ''prompt'', js_lit ''abc'')]"
  by (simp add: spec_collected_entries_def multi_keyword_chunks_def List.map_filter_simps
      recognized_keywords_def eval_text_entry)

lemma corrupted_png_bytes:
  "corrupted_png = [0x00, 0x50, 0x4E, 0x47, 0x0D, 0x0A, 0x1A, 0x0A]
     @ concat (map chunk_bytes minimal_png_chunks)"
  by (simp add: corrupted_png_def minimal_png_def png_file_def png_signature_def)

lemma second_snapshot_inject_minimal_png:
  "injectPngMetadata2 minimal_png [(js_lit ''parameters'', js_lit ''a'')]
   = Inr (spec_inject_output minimal_png [chunk_bytes (parameters_chunk (js_lit ''a''))])"
proof -
  have s: "has_png_signature minimal_png"
    by (simp add: minimal_png_def has_png_signature_png_file)
  have e: "spec_header_end minimal_png \<le> length minimal_png"
    by (simp add: spec_header_end_minimal_png length_minimal_png)
  show ?thesis
    using injectPngMetadata2_result[OF s e, of "[(js_lit ''parameters'', js_lit ''a'')]"]
    by (simp add: entry_chunk_def parameters_chunk_def)
qed

lemma second_snapshot_extract_multi_keyword:
  "extractPngMetadata2 (png_file multi_keyword_chunks)
   = Inr (Some [(js_lit ''workflow'', js_lit ''{}''), (js_lit ''prompt'', js_lit ''abc'')])"
proof -
  have wf: "list_all well_formed_chunk multi_keyword_chunks"
    by (simp add: multi_keyword_chunks_def well_formed_chunk_def text_chunk_def make_chunk_def
        ascii_def)
  show ?thesis
    using extractPngMetadata2_png_file[OF wf] by (simp add: collected_multi_keyword)
qed

lemma second_snapshot_inject_corrupted_png:
  "injectPngMetadata2 corrupted_png [(js_lit ''parameters'', js_lit ''a'')] = Inl NotValidPng"
proof -
  have n: "\<not> has_png_signature corrupted_png"
    by (simp add: has_png_signature_def corrupted_png_bytes png_signature_def)
  have l: "8 \<le> length corrupted_png"
    by (simp add: corrupted_png_bytes)
  show ?thesis
    by (rule injectPngMetadata2_rejects_broken_signature[OF l n])
qed

end
